theory Spec2Isabelle
  imports Main
begin

section \<open>The starship search of \<open>star_wars.py\<close>\<close>

text \<open>
  The program runs on one asyncio event loop: a coroutine runs without interruption from
  one \<open>await\<close> to the next, and only there may another coroutine take over. Each piece
  of code between two suspension points is therefore one atomic step of the model below,
  and an execution is a list of such steps, chosen by the event loop (the order of the
  workers) and by the network (what each fetch returns).
\<close>

subsection \<open>Data\<close>

text \<open>
  What \<open>fetch_page\<close> returns is whatever JSON the server sent, and \<open>worker\<close> reads it
  outside its \<open>try\<close>: a key that is not there raises \<open>KeyError\<close>, and the page number of
  the next page may fail to be a number (\<open>ValueError\<close>).
\<close>

datatype error = KeyError | ValueError

text \<open>
  A starship, as \<open>worker\<close> reads it: the values under the keys \<open>"name"\<close> and
  \<open>"hyperdrive_rating"\<close>, \<open>None\<close> when the key is absent.
\<close>

record starship =
  name :: "string option"
  hyperdrive_rating :: "string option"

text \<open>
  The value under \<open>"next"\<close>: the key is absent, the value is \<open>None\<close>, or it is a URL. Of
  the URL the program uses only what lines 57 to 59 make of it,
  \<open>int(parse_qs(urlparse(data["next"]).query)["page"][0])\<close>: a page number, or the
  exception these lines raise (\<open>KeyError\<close> when the query has no \<open>page\<close>, \<open>ValueError\<close>
  when it is not a number).
\<close>

datatype next_field = Missing | Null | Url "error + int"

text \<open>One page: the list under \<open>"results"\<close>, \<open>None\<close> when the key is absent, and \<open>"next"\<close>.\<close>

record page_data =
  results :: "starship list option"
  nxt :: next_field

text \<open>
  Where a worker coroutine stands: at the loop condition, in \<open>queue.get()\<close>, in
  \<open>fetch_page\<close> for a page, returned, ended by the \<open>ValueError\<close> of \<open>queue.task_done()\<close>
  (\<open>Raised\<close>), or ended by an exception raised while it read the page (\<open>Crashed\<close>).
\<close>

datatype pc = Head | Waiting | Fetching int | Exited | Raised | Crashed error

text \<open>Where \<open>find_starship_rating\<close> stands: in \<open>queue.join()\<close>, in \<open>gather\<close>, or returned.\<close>

datatype main_pc = Joining | Gathering | Returned "string option"

text \<open>
  The shared objects of one call and the module global. \<open>queue\<close> and \<open>unfinished_tasks\<close>
  are the two fields of \<open>asyncio.Queue\<close> the program depends on; an item is a page number
  or the sentinel \<open>None\<close>. \<open>result_dict\<close> is the entry under the key
  \<open>"hyperdrive_rating"\<close>, the only key ever used.
\<close>

record state =
  queue :: "int option list"
  unfinished_tasks :: nat
  found_event :: bool
  result_dict :: "string option"
  MAX_PAGE :: int
  workers :: "pc list"
  coordinator :: main_pc

text \<open>What an execution does, in the order it does it; the number is the worker's index.\<close>

datatype event =
    IsSet nat bool
  | Got nat "int option"
  | TimedOut nat
  | Fetch nat int
  | FetchError nat int
  | Store nat string
  | SetEv nat bool
  | PutPage nat int
  | TaskDone nat "int option"

text \<open>
  \<open>IsSet w b\<close>: worker \<open>w\<close> read \<open>found_event.is_set()\<close> as \<open>b\<close> (lines 22 and 62).
  \<open>Got w x\<close>: its \<open>queue.get()\<close> returned \<open>x\<close>. \<open>Fetch w p\<close>: it called \<open>fetch_page\<close>
  for page \<open>p\<close>. \<open>FetchError w p\<close>: the message of line 37. \<open>Store w r\<close>: the
  assignment of line 45. \<open>SetEv w b\<close>: it called \<open>found_event.set()\<close> when the flag
  was \<open>b\<close>. \<open>PutPage w p\<close>: the \<open>put_nowait\<close> of line 63. \<open>TaskDone w x\<close>: a
  \<open>queue.task_done()\<close> that succeeded, for the item \<open>x\<close> it had got.
\<close>

text \<open>
  The choices of the event loop and of the network. \<open>FetchReturns w None\<close>: \<open>fetch_page\<close>
  raises; \<open>FetchReturns w (Some data)\<close>: it returns \<open>data\<close>.
\<close>

datatype action =
    Loop nat
  | GetReturns nat
  | GetTimesOut nat
  | FetchReturns nat "page_data option"
  | JoinReturns
  | GatherReturns

subsection \<open>Strings\<close>

text \<open>
  A string is a list of code points below 256. On these \<open>str.lower()\<close> moves the
  letters A to Z and the letters from 192 to 222, but for the sign 215, to the letter
  32 places on and leaves every other code point as it is.
\<close>

definition lower_char :: "char \<Rightarrow> char" where
  "lower_char c =
     (let n = (of_char c :: nat) in
      if (65 \<le> n \<and> n \<le> 90) \<or> (192 \<le> n \<and> n \<le> 222 \<and> n \<noteq> 215)
      then char_of (n + 32) else c)"

definition lower :: "string \<Rightarrow> string" where
  "lower s = map lower_char s"

text \<open>
  Lines 42 to 45, the loop over \<open>data["results"]\<close>: the rating of the first starship
  whose name matches, \<open>None\<close> when none matches, or the \<open>KeyError\<close> of a key that is
  read and is not there. The name of a starship is read before the comparison, its
  rating only when the name matches.
\<close>

fun scan_results :: "string \<Rightarrow> starship list \<Rightarrow> error + string option" where
  "scan_results starship_name [] = Inr None"
| "scan_results starship_name (x # rest) =
     (case name x of
        None \<Rightarrow> Inl KeyError
      | Some n \<Rightarrow>
          if lower n = lower starship_name then
            (case hyperdrive_rating x of
               None \<Rightarrow> Inl KeyError
             | Some rating \<Rightarrow> Inr (Some rating))
          else scan_results starship_name rest)"

definition find_match :: "string \<Rightarrow> page_data \<Rightarrow> error + string option" where
  "find_match starship_name data =
     (case results data of
        None \<Rightarrow> Inl KeyError
      | Some starships \<Rightarrow> scan_results starship_name starships)"

subsection \<open>The queue\<close>

text \<open>
  \<open>asyncio.Queue.put_nowait\<close> on an unbounded queue appends and counts the item as
  unfinished. \<open>task_done\<close> raises \<open>ValueError\<close> when nothing is unfinished.
\<close>

definition put_nowait :: "int option \<Rightarrow> state \<Rightarrow> state" where
  "put_nowait x s = s\<lparr>queue := queue s @ [x], unfinished_tasks := unfinished_tasks s + 1\<rparr>"

definition task_done :: "state \<Rightarrow> state option" where
  "task_done s =
     (if unfinished_tasks s = 0 then None
      else Some (s\<lparr>unfinished_tasks := unfinished_tasks s - 1\<rparr>))"

definition set_pc :: "nat \<Rightarrow> pc \<Rightarrow> state \<Rightarrow> state" where
  "set_pc w c s = s\<lparr>workers := (workers s)[w := c]\<rparr>"

text \<open>
  \<open>queue.task_done()\<close> for the item \<open>x\<close>, after which worker \<open>w\<close> goes on at \<open>c\<close>; no
  call of it is inside a \<open>try\<close>, so a \<open>ValueError\<close> ends the worker.
\<close>

definition done_then :: "nat \<Rightarrow> int option \<Rightarrow> pc \<Rightarrow> state \<Rightarrow> event list \<times> state" where
  "done_then w x c s =
     (case task_done s of
        None \<Rightarrow> ([], set_pc w Raised s)
      | Some s' \<Rightarrow> ([TaskDone w x], set_pc w c s'))"

subsection \<open>The worker\<close>

text \<open>Line 22: the loop condition.\<close>

definition loop_head :: "nat \<Rightarrow> state \<Rightarrow> event list \<times> state" where
  "loop_head w s =
     ([IsSet w (found_event s)],
      set_pc w (if found_event s then Exited else Waiting) s)"

text \<open>
  Lines 24 and 29 to 35: \<open>queue.get()\<close> returns the oldest item; the sentinel is
  marked done and ends the worker, a page number starts \<open>fetch_page\<close>.
\<close>

definition get_returns :: "nat \<Rightarrow> state \<Rightarrow> (event list \<times> state) option" where
  "get_returns w s =
     (case queue s of
        [] \<Rightarrow> None
      | x # rest \<Rightarrow>
          (case x of
             None \<Rightarrow>
               (case done_then w None Exited (s\<lparr>queue := rest\<rparr>) of
                  (es, s') \<Rightarrow> Some (Got w None # es, s'))
           | Some page_number \<Rightarrow>
               Some ([Got w x, Fetch w page_number],
                     set_pc w (Fetching page_number) (s\<lparr>queue := rest\<rparr>))))"

text \<open>Lines 25 to 27: the queue stayed empty for half a second.\<close>

definition get_times_out :: "nat \<Rightarrow> state \<Rightarrow> event list \<times> state" where
  "get_times_out w s = ([TimedOut w], set_pc w Exited s)"

text \<open>
  An exception raised in lines 42 to 59. These lines are outside the \<open>try\<close> of lines 34
  to 39, so the exception ends the worker where it stands: nothing is stored, the flag
  and \<open>MAX_PAGE\<close> are as they were, and \<open>task_done\<close> is not called.
\<close>

definition raises :: "nat \<Rightarrow> error \<Rightarrow> state \<Rightarrow> event list \<times> state" where
  "raises w e s = ([], set_pc w (Crashed e) s)"

text \<open>
  Lines 55 to 64: there is a next page. The URL is taken apart only when the page is
  the page \<open>MAX_PAGE\<close>.
\<close>

definition continue_page ::
  "nat \<Rightarrow> int \<Rightarrow> error + int \<Rightarrow> state \<Rightarrow> event list \<times> state" where
  "continue_page w page_number url s =
     (if page_number = MAX_PAGE s then
        (case url of
           Inl e \<Rightarrow> raises w e s
         | Inr next_page \<Rightarrow>
             (let s1 = s\<lparr>MAX_PAGE := MAX_PAGE s + 1\<rparr> in
              if \<not> found_event s1 then
                (case done_then w (Some page_number) Head (put_nowait (Some next_page) s1) of
                   (es, s') \<Rightarrow> ([IsSet w False, PutPage w next_page] @ es, s'))
              else
                (case done_then w (Some page_number) Head s1 of
                   (es, s') \<Rightarrow> (IsSet w True # es, s'))))
      else done_then w (Some page_number) Head s)"

text \<open>Lines 41 to 64: the page has arrived.\<close>

definition scan_page ::
  "string \<Rightarrow> nat \<Rightarrow> int \<Rightarrow> page_data \<Rightarrow> state \<Rightarrow> event list \<times> state" where
  "scan_page starship_name w page_number data s =
     (case find_match starship_name data of
        Inl e \<Rightarrow> raises w e s
      | Inr (Some rating) \<Rightarrow>
          (case done_then w (Some page_number) Exited
                  (s\<lparr>result_dict := Some rating, found_event := True\<rparr>) of
             (es, s') \<Rightarrow> ([Store w rating, SetEv w (found_event s)] @ es, s'))
      | Inr None \<Rightarrow>
          (case nxt data of
             Missing \<Rightarrow> raises w KeyError s
           | Null \<Rightarrow>
               (case done_then w (Some page_number) Exited (s\<lparr>found_event := True\<rparr>) of
                  (es, s') \<Rightarrow> (SetEv w (found_event s) # es, s'))
           | Url url \<Rightarrow> continue_page w page_number url s))"

text \<open>Lines 34 to 39 and on: \<open>fetch_page\<close> raises (\<open>None\<close>) or returns the page.\<close>

definition fetch_returns ::
  "string \<Rightarrow> nat \<Rightarrow> int \<Rightarrow> page_data option \<Rightarrow> state \<Rightarrow> event list \<times> state" where
  "fetch_returns starship_name w page_number r s =
     (case r of
        None \<Rightarrow>
          (case done_then w (Some page_number) Head s of
             (es, s') \<Rightarrow> (FetchError w page_number # es, s'))
      | Some data \<Rightarrow> scan_page starship_name w page_number data s)"

subsection \<open>The coordinator\<close>

text \<open>
  Lines 74 to 88: the objects of one call, the queue filled with \<open>range(0, MAX_PAGE+1)\<close>
  from the module global as it stands, and \<open>max_concurrency\<close> workers created.
\<close>

definition find_starship_rating_start :: "int \<Rightarrow> int \<Rightarrow> state" where
  "find_starship_rating_start max_page max_concurrency =
     fold (\<lambda>i. put_nowait (Some i)) [0..max_page]
       \<lparr>queue = [], unfinished_tasks = 0, found_event = False, result_dict = None,
        MAX_PAGE = max_page, workers = replicate (nat max_concurrency) Head,
        coordinator = Joining\<rparr>"

text \<open>Line 6: the module global when the module is loaded.\<close>

definition MAX_PAGE_at_import :: int where
  "MAX_PAGE_at_import = 2"

text \<open>
  Lines 93 to 97: \<open>queue.join()\<close> returns once nothing is unfinished, and one sentinel
  for each worker is put.
\<close>

definition join_returns :: "state \<Rightarrow> event list \<times> state" where
  "join_returns s =
     ([], ((put_nowait None) ^^ (length (workers s))) (s\<lparr>coordinator := Gathering\<rparr>))"

text \<open>
  Lines 100 and 101: every worker task has ended, by returning or by an exception,
  which \<open>gather(return_exceptions=True)\<close> collects.
\<close>

definition ended :: "pc \<Rightarrow> bool" where
  "ended c = (case c of Exited \<Rightarrow> True | Raised \<Rightarrow> True | Crashed e \<Rightarrow> True | _ \<Rightarrow> False)"

definition gather_returns :: "state \<Rightarrow> event list \<times> state" where
  "gather_returns s = ([], s\<lparr>coordinator := Returned (result_dict s)\<rparr>)"

text \<open>
  A call that starts when an earlier call has left the module in the state \<open>s\<close>. Lines
  74 to 88 make a new event, a new dictionary, a new queue and new tasks; \<open>MAX_PAGE\<close> is
  a global of the module (lines 6 and 17) that these lines read and do not assign.
\<close>

definition find_starship_rating_again :: "state \<Rightarrow> int \<Rightarrow> state" where
  "find_starship_rating_again s max_concurrency =
     fold (\<lambda>i. put_nowait (Some i)) [0..MAX_PAGE s]
       (s\<lparr>queue := [], unfinished_tasks := 0, found_event := False, result_dict := None,
          workers := replicate (nat max_concurrency) Head, coordinator := Joining\<rparr>)"

subsection \<open>Executions\<close>

text \<open>
  One atomic step; \<open>None\<close> when the step cannot happen in this state. The worker
  suspends in three places: in \<open>wait_for(queue.get(), timeout=0.5)\<close>, which may hand
  control to the loop before \<open>get\<close> runs, so that the test of line 22 (\<open>Loop\<close>) and the
  return of \<open>get\<close> (\<open>GetReturns\<close>) are two steps; and in \<open>fetch_page\<close>
  (\<open>FetchReturns\<close>, with what the network answers). \<open>get\<close> returns at once when the
  queue holds an item, so it times out only on an empty queue. The coordinator suspends
  in \<open>queue.join()\<close> and in \<open>gather\<close>.
\<close>

fun step :: "string \<Rightarrow> action \<Rightarrow> state \<Rightarrow> (event list \<times> state) option" where
  "step tgt (Loop w) s =
     (if w < length (workers s) \<and> workers s ! w = Head then Some (loop_head w s) else None)"
| "step tgt (GetReturns w) s =
     (if w < length (workers s) \<and> workers s ! w = Waiting then get_returns w s else None)"
| "step tgt (GetTimesOut w) s =
     (if w < length (workers s) \<and> workers s ! w = Waiting \<and> queue s = []
      then Some (get_times_out w s) else None)"
| "step tgt (FetchReturns w r) s =
     (if w < length (workers s) then
        (case workers s ! w of
           Fetching page_number \<Rightarrow> Some (fetch_returns tgt w page_number r s)
         | _ \<Rightarrow> None)
      else None)"
| "step tgt JoinReturns s =
     (if coordinator s = Joining \<and> unfinished_tasks s = 0 then Some (join_returns s)
      else None)"
| "step tgt GatherReturns s =
     (if coordinator s = Gathering \<and> list_all ended (workers s)
      then Some (gather_returns s) else None)"

fun exec :: "string \<Rightarrow> action list \<Rightarrow> state \<Rightarrow> (event list \<times> state) option" where
  "exec tgt [] s = Some ([], s)"
| "exec tgt (a # as) s =
     (case step tgt a s of
        None \<Rightarrow> None
      | Some (es, s') \<Rightarrow>
          (case exec tgt as s' of
             None \<Rightarrow> None
           | Some (tr, s'') \<Rightarrow> Some (es @ tr, s'')))"

text \<open>
  The step reaches line 60: the page of a worker arrives without a match and with a next
  page whose number can be read, and it is the page \<open>MAX_PAGE\<close>.
\<close>

definition frontier_advance :: "string \<Rightarrow> action \<Rightarrow> state \<Rightarrow> bool" where
  "frontier_advance tgt a s =
     (case a of
        FetchReturns w (Some data) \<Rightarrow>
          w < length (workers s) \<and>
          (case workers s ! w of
             Fetching page_number \<Rightarrow>
               find_match tgt data = Inr None \<and>
               (case nxt data of
                  Url (Inr next_page) \<Rightarrow> page_number = MAX_PAGE s
                | _ \<Rightarrow> False)
           | _ \<Rightarrow> False)
      | _ \<Rightarrow> False)"

subsection \<open>Predicates on states and on what has happened\<close>

text \<open>
  A worker that has got a page number from the queue and has not marked it done: it is
  fetching the page, or it has ended by an exception while it read the page.
\<close>

definition holding :: "pc \<Rightarrow> bool" where
  "holding c = (case c of Fetching p \<Rightarrow> True | Crashed e \<Rightarrow> True | _ \<Rightarrow> False)"

text \<open>
  Every unfinished item is in the queue or with a worker that holds it, and no worker
  has ended by the \<open>ValueError\<close> of \<open>task_done\<close>.
\<close>

definition balanced :: "state \<Rightarrow> bool" where
  "balanced s =
     (unfinished_tasks s = length (queue s) + length (filter holding (workers s)) \<and>
      Raised \<notin> set (workers s))"

text \<open>Worker \<open>w\<close> has read the flag as set, or has called \<open>set\<close> itself.\<close>

definition seen :: "nat \<Rightarrow> event list \<Rightarrow> bool" where
  "seen w tr = (IsSet w True \<in> set tr \<or> SetEv w False \<in> set tr \<or> SetEv w True \<in> set tr)"

text \<open>
  Kinds of events: an item got from the queue, a \<open>task_done\<close>, a result stored, a call
  of \<open>set\<close> that found the flag unset; and the values read from the flag, in order.
\<close>

definition is_get :: "event \<Rightarrow> bool" where
  "is_get e = (case e of Got w x \<Rightarrow> True | _ \<Rightarrow> False)"

definition is_done :: "event \<Rightarrow> bool" where
  "is_done e = (case e of TaskDone w x \<Rightarrow> True | _ \<Rightarrow> False)"

definition is_store :: "event \<Rightarrow> bool" where
  "is_store e = (case e of Store w r \<Rightarrow> True | _ \<Rightarrow> False)"

definition is_transition :: "event \<Rightarrow> bool" where
  "is_transition e = (case e of SetEv w b \<Rightarrow> \<not> b | _ \<Rightarrow> False)"

definition observation :: "event \<Rightarrow> bool list" where
  "observation e = (case e of IsSet w b \<Rightarrow> [b] | _ \<Rightarrow> [])"

definition observations :: "event list \<Rightarrow> bool list" where
  "observations tr = concat (map observation tr)"

text \<open>
  A worker that has read the flag as set, or set it, is at the loop condition or has
  exited, and the flag is set.
\<close>

definition seen_inv :: "event list \<Rightarrow> state \<Rightarrow> bool" where
  "seen_inv tr s =
     (\<forall>w. seen w tr \<longrightarrow>
        found_event s \<and> w < length (workers s) \<and>
        (workers s ! w = Head \<or> workers s ! w = Exited))"

text \<open>
  The items got from the queue are the ones marked done and the ones the workers hold.
\<close>

definition tallied :: "event list \<Rightarrow> state \<Rightarrow> bool" where
  "tallied tr s =
     (length (filter is_done tr) + length (filter holding (workers s)) =
      length (filter is_get tr))"

text \<open>
  What has been read from the flag so far is \<open>False\<close> until it is \<open>True\<close>, and a read
  of \<open>True\<close> or a call of \<open>set\<close> means the flag is set now; at most one call of \<open>set\<close>
  found the flag unset.
\<close>

definition flag_inv :: "event list \<Rightarrow> state \<Rightarrow> bool" where
  "flag_inv tr s =
     (sorted (observations tr) \<and>
      (True \<in> set (observations tr) \<longrightarrow> found_event s) \<and>
      length (filter is_transition tr) \<le> 1 \<and>
      (filter is_transition tr \<noteq> [] \<longrightarrow> found_event s))"

text \<open>A worker that has stored a result has exited.\<close>

definition store_inv :: "event list \<Rightarrow> state \<Rightarrow> bool" where
  "store_inv tr s =
     ((\<forall>w r. Store w r \<in> set tr \<longrightarrow> w < length (workers s) \<and> workers s ! w = Exited) \<and>
      length (filter is_store tr) \<le> length (filter (\<lambda>c. c = Exited) (workers s)))"

text \<open>The ratings stored so far, and what a call that has returned has returned.\<close>

definition stored :: "event list \<Rightarrow> string list" where
  "stored tr = concat (map (\<lambda>e. case e of Store w r \<Rightarrow> [r] | _ \<Rightarrow> []) tr)"

definition result_inv :: "event list \<Rightarrow> state \<Rightarrow> bool" where
  "result_inv tr s =
     (result_dict s = (if stored tr = [] then None else Some (last (stored tr))) \<and>
      (\<forall>v. coordinator s = Returned v \<longrightarrow> v = result_dict s \<and> list_all ended (workers s)))"

subsection \<open>A search of three pages by three workers\<close>

text \<open>
  The source asks for \<open>"Jedi Interceptor"\<close> (line 105). In the run below page 0 does
  not exist, as the comment of line 80 says, pages 1 and 2 have a next page and page 3
  is the last one and holds the starship. Each worker goes from the loop condition
  into \<open>queue.get()\<close> without a pause.
\<close>

definition page_1 :: page_data where
  "page_1 =
     \<lparr>results = Some [\<lparr>name = Some ''CR90 corvette'', hyperdrive_rating = Some ''2.0''\<rparr>,
                       \<lparr>name = Some ''Death Star'', hyperdrive_rating = Some ''4.0''\<rparr>],
      nxt = Url (Inr 2)\<rparr>"

definition page_2 :: page_data where
  "page_2 =
     \<lparr>results = Some [\<lparr>name = Some ''X-wing'', hyperdrive_rating = Some ''1.0''\<rparr>],
      nxt = Url (Inr 3)\<rparr>"

definition page_3 :: page_data where
  "page_3 =
     \<lparr>results = Some [\<lparr>name = Some ''Jedi Interceptor'', hyperdrive_rating = Some ''1.0''\<rparr>],
      nxt = Null\<rparr>"

definition search_run :: "action list" where
  "search_run =
     [Loop 0, GetReturns 0, Loop 1, GetReturns 1, Loop 2, GetReturns 2,
      FetchReturns 0 None, Loop 0,
      FetchReturns 1 (Some page_1), Loop 1,
      FetchReturns 2 (Some page_2), Loop 2, GetReturns 2,
      FetchReturns 2 (Some page_3),
      JoinReturns, GetReturns 0, GetReturns 1, GatherReturns]"

text \<open>The run after its first \<open>k\<close> steps.\<close>

definition after :: "nat \<Rightarrow> (event list \<times> state) option" where
  "after k = exec ''jedi interceptor'' (take k search_run)
               (find_starship_rating_start MAX_PAGE_at_import 3)"

definition trace_6 :: "event list" where
  "trace_6 =
     [IsSet 0 False, Got 0 (Some 0), Fetch 0 0, IsSet 1 False, Got 1 (Some 1), Fetch 1 1,
      IsSet 2 False, Got 2 (Some 2), Fetch 2 2]"

definition state_6 :: state where
  "state_6 =
     \<lparr>queue = [], unfinished_tasks = 3, found_event = False, result_dict = None,
      MAX_PAGE = 2, workers = [Fetching 0, Fetching 1, Fetching 2],
      coordinator = Joining\<rparr>"

definition trace_8 :: "event list" where
  "trace_8 = trace_6 @ [FetchError 0 0, TaskDone 0 (Some 0), IsSet 0 False]"

definition state_8 :: state where
  "state_8 =
     \<lparr>queue = [], unfinished_tasks = 2, found_event = False, result_dict = None,
      MAX_PAGE = 2, workers = [Waiting, Fetching 1, Fetching 2], coordinator = Joining\<rparr>"

definition trace_10 :: "event list" where
  "trace_10 = trace_8 @ [TaskDone 1 (Some 1), IsSet 1 False]"

definition state_10 :: state where
  "state_10 =
     \<lparr>queue = [], unfinished_tasks = 1, found_event = False, result_dict = None,
      MAX_PAGE = 2, workers = [Waiting, Waiting, Fetching 2], coordinator = Joining\<rparr>"

definition trace_12 :: "event list" where
  "trace_12 = trace_10 @ [IsSet 2 False, PutPage 2 3, TaskDone 2 (Some 2), IsSet 2 False]"

definition state_12 :: state where
  "state_12 =
     \<lparr>queue = [Some 3], unfinished_tasks = 1, found_event = False, result_dict = None,
      MAX_PAGE = 3, workers = [Waiting, Waiting, Waiting], coordinator = Joining\<rparr>"

definition trace_13 :: "event list" where
  "trace_13 = trace_12 @ [Got 2 (Some 3), Fetch 2 3]"

definition state_13 :: state where
  "state_13 =
     \<lparr>queue = [], unfinished_tasks = 1, found_event = False, result_dict = None,
      MAX_PAGE = 3, workers = [Waiting, Waiting, Fetching 3], coordinator = Joining\<rparr>"

definition trace_14 :: "event list" where
  "trace_14 = trace_13 @ [Store 2 ''1.0'', SetEv 2 False, TaskDone 2 (Some 3)]"

definition state_14 :: state where
  "state_14 =
     \<lparr>queue = [], unfinished_tasks = 0, found_event = True, result_dict = Some ''1.0'',
      MAX_PAGE = 3, workers = [Waiting, Waiting, Exited], coordinator = Joining\<rparr>"

definition trace_18 :: "event list" where
  "trace_18 = trace_14 @ [Got 0 None, TaskDone 0 None, Got 1 None, TaskDone 1 None]"

definition state_18 :: state where
  "state_18 =
     \<lparr>queue = [None], unfinished_tasks = 1, found_event = True,
      result_dict = Some ''1.0'', MAX_PAGE = 3, workers = [Exited, Exited, Exited],
      coordinator = Returned (Some ''1.0'')\<rparr>"

subsection \<open>Runs in which the flag is set early\<close>

text \<open>Page 2 is the last page and comes back before page 1, which holds the starship.\<close>

definition last_page :: page_data where
  "last_page =
     \<lparr>results = Some [\<lparr>name = Some ''X-wing'', hyperdrive_rating = Some ''1.0''\<rparr>],
      nxt = Null\<rparr>"

definition late_match_run :: "action list" where
  "late_match_run =
     [Loop 0, Loop 1, Loop 2, GetReturns 0, GetReturns 1, GetReturns 2,
      FetchReturns 2 (Some last_page), FetchReturns 1 (Some page_1), FetchReturns 0 None,
      Loop 0, JoinReturns, GatherReturns]"

definition late_match_trace :: "event list" where
  "late_match_trace =
     [IsSet 0 False, IsSet 1 False, IsSet 2 False, Got 0 (Some 0), Fetch 0 0,
      Got 1 (Some 1), Fetch 1 1, Got 2 (Some 2), Fetch 2 2, SetEv 2 False,
      TaskDone 2 (Some 2), Store 1 ''4.0'', SetEv 1 True, TaskDone 1 (Some 1),
      FetchError 0 0, TaskDone 0 (Some 0), IsSet 0 True]"

text \<open>Two pages that each hold a starship of the name asked for.\<close>

definition twin_1 :: page_data where
  "twin_1 =
     \<lparr>results = Some [\<lparr>name = Some ''X-wing'', hyperdrive_rating = Some ''1.0''\<rparr>],
      nxt = Url (Inr 2)\<rparr>"

definition twin_2 :: page_data where
  "twin_2 =
     \<lparr>results = Some [\<lparr>name = Some ''x-wing'', hyperdrive_rating = Some ''1.5''\<rparr>],
      nxt = Null\<rparr>"

definition twin_run :: "action list" where
  "twin_run =
     [Loop 0, Loop 1, Loop 2, GetReturns 0, GetReturns 1, GetReturns 2,
      FetchReturns 1 (Some twin_1), FetchReturns 2 (Some twin_2), FetchReturns 0 None,
      Loop 0, JoinReturns, GatherReturns]"

definition twin_trace :: "event list" where
  "twin_trace =
     [IsSet 0 False, IsSet 1 False, IsSet 2 False, Got 0 (Some 0), Fetch 0 0,
      Got 1 (Some 1), Fetch 1 1, Got 2 (Some 2), Fetch 2 2, Store 1 ''1.0'',
      SetEv 1 False, TaskDone 1 (Some 1), Store 2 ''1.5'', SetEv 2 True,
      TaskDone 2 (Some 2), FetchError 0 0, TaskDone 0 (Some 0), IsSet 0 True]"

text \<open>
  One worker, and the starship on page 1: the worker sets the flag and returns while
  page 2 is still in the queue. The same with two workers, the name asked for in
  capitals.
\<close>

definition hang_run :: "action list" where
  "hang_run =
     [Loop 0, GetReturns 0, FetchReturns 0 None, Loop 0, GetReturns 0,
      FetchReturns 0 (Some page_1)]"

definition hang_trace :: "event list" where
  "hang_trace =
     [IsSet 0 False, Got 0 (Some 0), Fetch 0 0, FetchError 0 0, TaskDone 0 (Some 0),
      IsSet 0 False, Got 0 (Some 1), Fetch 0 1, Store 0 ''4.0'', SetEv 0 False,
      TaskDone 0 (Some 1)]"

definition hang_state :: state where
  "hang_state =
     \<lparr>queue = [Some 2], unfinished_tasks = 1, found_event = True,
      result_dict = Some ''4.0'', MAX_PAGE = 2, workers = [Exited],
      coordinator = Joining\<rparr>"

definition hang_run_2 :: "action list" where
  "hang_run_2 =
     [Loop 0, Loop 1, GetReturns 0, GetReturns 1, FetchReturns 1 (Some page_1),
      FetchReturns 0 None, Loop 0]"

definition hang_trace_2 :: "event list" where
  "hang_trace_2 =
     [IsSet 0 False, IsSet 1 False, Got 0 (Some 0), Fetch 0 0, Got 1 (Some 1),
      Fetch 1 1, Store 1 ''4.0'', SetEv 1 False, TaskDone 1 (Some 1),
      FetchError 0 0, TaskDone 0 (Some 0), IsSet 0 True]"

definition hang_state_2 :: state where
  "hang_state_2 =
     \<lparr>queue = [Some 2], unfinished_tasks = 1, found_event = True,
      result_dict = Some ''4.0'', MAX_PAGE = 2, workers = [Exited, Exited],
      coordinator = Joining\<rparr>"

text \<open>
  The last page comes back first and has no match; worker 0 then reads the flag as set,
  and worker 1, whose page has no match either, reads it as set after that.
\<close>

definition exhausted_run :: "action list" where
  "exhausted_run =
     [Loop 0, GetReturns 0, Loop 1, GetReturns 1, Loop 2, GetReturns 2,
      FetchReturns 2 (Some last_page), FetchReturns 0 None, Loop 0]"

definition exhausted_trace :: "event list" where
  "exhausted_trace =
     [IsSet 0 False, Got 0 (Some 0), Fetch 0 0, IsSet 1 False, Got 1 (Some 1), Fetch 1 1,
      IsSet 2 False, Got 2 (Some 2), Fetch 2 2, SetEv 2 False, TaskDone 2 (Some 2),
      FetchError 0 0, TaskDone 0 (Some 0), IsSet 0 True]"

definition exhausted_state :: state where
  "exhausted_state =
     \<lparr>queue = [], unfinished_tasks = 1, found_event = True, result_dict = None,
      MAX_PAGE = 2, workers = [Exited, Fetching 1, Exited], coordinator = Joining\<rparr>"

subsection \<open>Runs in which a page cannot be read\<close>

text \<open>
  One worker. Page 0 does not exist; the answer for page 1 is a JSON object without
  \<open>"results"\<close>.
\<close>

definition no_results :: page_data where
  "no_results = \<lparr>results = None, nxt = Null\<rparr>"

definition no_results_run :: "action list" where
  "no_results_run =
     [Loop 0, GetReturns 0, FetchReturns 0 None, Loop 0, GetReturns 0,
      FetchReturns 0 (Some no_results)]"

definition no_results_trace :: "event list" where
  "no_results_trace =
     [IsSet 0 False, Got 0 (Some 0), Fetch 0 0, FetchError 0 0, TaskDone 0 (Some 0),
      IsSet 0 False, Got 0 (Some 1), Fetch 0 1]"

definition no_results_state :: state where
  "no_results_state =
     \<lparr>queue = [Some 2], unfinished_tasks = 2, found_event = False, result_dict = None,
      MAX_PAGE = 2, workers = [Crashed KeyError], coordinator = Joining\<rparr>"

text \<open>
  One worker. Page 1 is read and marked done; page 2, the page \<open>MAX_PAGE\<close>, has a next
  page whose URL carries no \<open>page\<close>.
\<close>

definition no_page_number :: page_data where
  "no_page_number =
     \<lparr>results = Some [\<lparr>name = Some ''X-wing'', hyperdrive_rating = Some ''1.0''\<rparr>],
      nxt = Url (Inl KeyError)\<rparr>"

definition no_page_number_run :: "action list" where
  "no_page_number_run =
     [Loop 0, GetReturns 0, FetchReturns 0 None, Loop 0, GetReturns 0,
      FetchReturns 0 (Some page_1), Loop 0, GetReturns 0,
      FetchReturns 0 (Some no_page_number)]"

definition no_page_number_trace :: "event list" where
  "no_page_number_trace =
     [IsSet 0 False, Got 0 (Some 0), Fetch 0 0, FetchError 0 0, TaskDone 0 (Some 0),
      IsSet 0 False, Got 0 (Some 1), Fetch 0 1, TaskDone 0 (Some 1),
      IsSet 0 False, Got 0 (Some 2), Fetch 0 2]"

definition no_page_number_state :: state where
  "no_page_number_state =
     \<lparr>queue = [], unfinished_tasks = 1, found_event = False, result_dict = None,
      MAX_PAGE = 2, workers = [Crashed KeyError], coordinator = Joining\<rparr>"

section \<open>Basic facts\<close>

lemma fold_put_nowait:
  "fold (\<lambda>i. put_nowait (Some i)) xs s =
     s\<lparr>queue := queue s @ map Some xs, unfinished_tasks := unfinished_tasks s + length xs\<rparr>"
  by (induction xs arbitrary: s) (simp_all add: put_nowait_def)

lemma start_eq:
  "find_starship_rating_start g n =
     \<lparr>queue = map Some [0..g], unfinished_tasks = length [0..g], found_event = False,
      result_dict = None, MAX_PAGE = g, workers = replicate (nat n) Head,
      coordinator = Joining\<rparr>"
  by (simp add: find_starship_rating_start_def fold_put_nowait)

lemma funpow_put_nowait:
  "((put_nowait x) ^^ k) s =
     s\<lparr>queue := queue s @ replicate k x, unfinished_tasks := unfinished_tasks s + k\<rparr>"
proof (induction k arbitrary: s)
  case 0
  show ?case by simp
next
  case (Suc k)
  have "((put_nowait x) ^^ Suc k) s = put_nowait x (((put_nowait x) ^^ k) s)"
    by simp
  also have "\<dots> = put_nowait x
      (s\<lparr>queue := queue s @ replicate k x, unfinished_tasks := unfinished_tasks s + k\<rparr>)"
    by (simp only: Suc)
  also have "\<dots> = s\<lparr>queue := queue s @ replicate (Suc k) x,
      unfinished_tasks := unfinished_tasks s + Suc k\<rparr>"
    by (simp add: put_nowait_def replicate_append_same)
  finally show ?case .
qed

lemma again_eq:
  "find_starship_rating_again s m = find_starship_rating_start (MAX_PAGE s) m"
  by (simp add: find_starship_rating_again_def find_starship_rating_start_def fold_put_nowait)

lemma holding_simps [simp]:
  "holding (Fetching p)" "holding (Crashed e)" "\<not> holding Head" "\<not> holding Waiting"
  "\<not> holding Exited" "\<not> holding Raised"
  by (simp_all add: holding_def)

lemma ended_simps [simp]:
  "ended Exited" "ended Raised" "ended (Crashed e)" "\<not> ended Head" "\<not> ended Waiting"
  "\<not> ended (Fetching p)"
  by (simp_all add: ended_def)

lemma count_update:
  "i < length xs \<Longrightarrow>
   length (filter P (xs[i := y])) + (if P (xs ! i) then 1 else 0) =
   length (filter P xs) + (if P y then 1 else 0)"
proof (induction xs arbitrary: i)
  case Nil
  then show ?case by simp
next
  case (Cons x xs)
  then show ?case by (cases i) auto
qed

lemma count_pos: "i < length xs \<Longrightarrow> P (xs ! i) \<Longrightarrow> 0 < length (filter P xs)"
  by (metis filter_empty_conv length_greater_0_conv nth_mem)

lemma exec_append:
  "exec tgt (as @ bs) s =
     (case exec tgt as s of
        None \<Rightarrow> None
      | Some (tr, s') \<Rightarrow>
          (case exec tgt bs s' of None \<Rightarrow> None | Some (tr', s'') \<Rightarrow> Some (tr @ tr', s'')))"
  by (induction as arbitrary: s) (auto split: option.splits)

lemma exec_snoc:
  "exec tgt (as @ [a]) s = Some (tr, s') \<longleftrightarrow>
     (\<exists>tr0 s0 es. exec tgt as s = Some (tr0, s0) \<and> step tgt a s0 = Some (es, s') \<and> tr = tr0 @ es)"
  by (auto simp: exec_append split: option.splits)

lemma exec_invariant:
  assumes "exec tgt as s0 = Some (tr, s)"
    and "P [] s0"
    and "\<And>tr s a es s'. P tr s \<Longrightarrow> step tgt a s = Some (es, s') \<Longrightarrow> P (tr @ es) s'"
  shows "P tr s"
  using assms(1)
proof (induction as arbitrary: tr s rule: rev_induct)
  case Nil
  then show ?case using assms(2) by simp
next
  case (snoc a as)
  then show ?case using assms(3) by (auto simp: exec_snoc)
qed

lemma done_then_pos:
  "0 < unfinished_tasks s \<Longrightarrow>
   done_then w x c s = ([TaskDone w x], set_pc w c (s\<lparr>unfinished_tasks := unfinished_tasks s - 1\<rparr>))"
  by (simp add: done_then_def task_done_def)

lemma balanced_fetching_pos:
  "balanced s \<Longrightarrow> w < length (workers s) \<Longrightarrow> workers s ! w = Fetching p \<Longrightarrow>
   0 < unfinished_tasks s"
  using count_pos[of w "workers s" holding] by (simp add: balanced_def)

lemma raised_update:
  "Raised \<notin> set xs \<Longrightarrow> c \<noteq> Raised \<Longrightarrow> Raised \<notin> set (xs[i := c])"
  using set_update_subset_insert[of xs i c] by auto

text \<open>
  The steps there are, from a state in which the queue is balanced: what each one needs,
  what happens in it and the state it leads to.
\<close>

lemma step_cases [consumes 2]:
  assumes "balanced s" and "step tgt a s = Some (es, s')"
  obtains
    (loop) w where "a = Loop w" "w < length (workers s)" "workers s ! w = Head"
      "es = [IsSet w (found_event s)]"
      "s' = s\<lparr>workers := (workers s)[w := if found_event s then Exited else Waiting]\<rparr>"
  | (sentinel) w rest where "a = GetReturns w" "w < length (workers s)"
      "workers s ! w = Waiting" "queue s = None # rest"
      "es = [Got w None, TaskDone w None]"
      "s' = s\<lparr>queue := rest, unfinished_tasks := unfinished_tasks s - 1,
                workers := (workers s)[w := Exited]\<rparr>"
  | (page) w p rest where "a = GetReturns w" "w < length (workers s)"
      "workers s ! w = Waiting" "queue s = Some p # rest"
      "es = [Got w (Some p), Fetch w p]"
      "s' = s\<lparr>queue := rest, workers := (workers s)[w := Fetching p]\<rparr>"
  | (timeout) w where "a = GetTimesOut w" "w < length (workers s)"
      "workers s ! w = Waiting" "queue s = []"
      "es = [TimedOut w]"
      "s' = s\<lparr>workers := (workers s)[w := Exited]\<rparr>"
  | (failed) w p where "a = FetchReturns w None" "w < length (workers s)"
      "workers s ! w = Fetching p"
      "es = [FetchError w p, TaskDone w (Some p)]"
      "s' = s\<lparr>unfinished_tasks := unfinished_tasks s - 1,
                workers := (workers s)[w := Head]\<rparr>"
  | (crashed) w p d e where "a = FetchReturns w (Some d)" "w < length (workers s)"
      "workers s ! w = Fetching p"
      "find_match tgt d = Inl e \<or>
       find_match tgt d = Inr None \<and>
         (nxt d = Missing \<and> e = KeyError \<or> nxt d = Url (Inl e) \<and> p = MAX_PAGE s)"
      "es = []"
      "s' = s\<lparr>workers := (workers s)[w := Crashed e]\<rparr>"
  | (matched) w p d r where "a = FetchReturns w (Some d)" "w < length (workers s)"
      "workers s ! w = Fetching p" "find_match tgt d = Inr (Some r)"
      "es = [Store w r, SetEv w (found_event s), TaskDone w (Some p)]"
      "s' = s\<lparr>result_dict := Some r, found_event := True,
                unfinished_tasks := unfinished_tasks s - 1,
                workers := (workers s)[w := Exited]\<rparr>"
  | (exhausted) w p d where "a = FetchReturns w (Some d)" "w < length (workers s)"
      "workers s ! w = Fetching p" "find_match tgt d = Inr None" "nxt d = Null"
      "es = [SetEv w (found_event s), TaskDone w (Some p)]"
      "s' = s\<lparr>found_event := True, unfinished_tasks := unfinished_tasks s - 1,
                workers := (workers s)[w := Exited]\<rparr>"
  | (advanced) w p d np where "a = FetchReturns w (Some d)" "w < length (workers s)"
      "workers s ! w = Fetching p" "find_match tgt d = Inr None" "nxt d = Url (Inr np)"
      "p = MAX_PAGE s" "\<not> found_event s"
      "es = [IsSet w False, PutPage w np, TaskDone w (Some p)]"
      "s' = s\<lparr>MAX_PAGE := MAX_PAGE s + 1, queue := queue s @ [Some np],
                workers := (workers s)[w := Head]\<rparr>"
  | (late) w p d np where "a = FetchReturns w (Some d)" "w < length (workers s)"
      "workers s ! w = Fetching p" "find_match tgt d = Inr None" "nxt d = Url (Inr np)"
      "p = MAX_PAGE s" "found_event s"
      "es = [IsSet w True, TaskDone w (Some p)]"
      "s' = s\<lparr>MAX_PAGE := MAX_PAGE s + 1, unfinished_tasks := unfinished_tasks s - 1,
                workers := (workers s)[w := Head]\<rparr>"
  | (inner) w p d u where "a = FetchReturns w (Some d)" "w < length (workers s)"
      "workers s ! w = Fetching p" "find_match tgt d = Inr None" "nxt d = Url u"
      "p \<noteq> MAX_PAGE s"
      "es = [TaskDone w (Some p)]"
      "s' = s\<lparr>unfinished_tasks := unfinished_tasks s - 1,
                workers := (workers s)[w := Head]\<rparr>"
  | (join) "a = JoinReturns" "coordinator s = Joining" "unfinished_tasks s = 0"
      "es = []"
      "s' = s\<lparr>coordinator := Gathering,
                queue := queue s @ replicate (length (workers s)) None,
                unfinished_tasks := unfinished_tasks s + length (workers s)\<rparr>"
  | (gather) "a = GatherReturns" "coordinator s = Gathering" "list_all ended (workers s)"
      "es = []"
      "s' = s\<lparr>coordinator := Returned (result_dict s)\<rparr>"
proof (cases a)
  case (Loop w)
  with assms(2) show ?thesis
    by (intro loop[of w]) (auto simp: loop_head_def set_pc_def split: if_splits)
next
  case (GetReturns w)
  with assms(2) have w: "w < length (workers s)" "workers s ! w = Waiting"
    and g: "get_returns w s = Some (es, s')"
    by (auto split: if_splits)
  show ?thesis
  proof (cases "queue s")
    case Nil
    with g show ?thesis by (simp add: get_returns_def)
  next
    case (Cons x rest)
    show ?thesis
    proof (cases x)
      case None
      have "0 < unfinished_tasks s"
        using assms(1) Cons by (simp add: balanced_def)
      with g Cons None w GetReturns show ?thesis
        by (intro sentinel[of w rest]) (auto simp: get_returns_def done_then_pos set_pc_def)
    next
      case (Some p)
      with g Cons w GetReturns show ?thesis
        by (intro page[of w p rest]) (auto simp: get_returns_def set_pc_def)
    qed
  qed
next
  case (GetTimesOut w)
  with assms(2) show ?thesis
    by (intro timeout[of w]) (auto simp: get_times_out_def set_pc_def split: if_splits)
next
  case (FetchReturns w r)
  with assms(2) obtain p where w: "w < length (workers s)" "workers s ! w = Fetching p"
    and st: "fetch_returns tgt w p r s = (es, s')"
    by (auto split: if_splits pc.splits)
  have pos: "0 < unfinished_tasks s"
    using assms(1) w by (rule balanced_fetching_pos)
  show ?thesis
  proof (cases r)
    case None
    with st w pos FetchReturns show ?thesis
      by (intro failed[of w p]) (auto simp: fetch_returns_def done_then_pos set_pc_def)
  next
    case (Some d)
    note d = this
    show ?thesis
    proof (cases "find_match tgt d")
      case (Inl e)
      with st w FetchReturns d show ?thesis
        by (intro crashed[of w d p e])
           (auto simp: fetch_returns_def scan_page_def raises_def set_pc_def)
    next
      case (Inr m)
      show ?thesis
      proof (cases m)
        case (Some rating)
        with st w pos FetchReturns d Inr show ?thesis
          by (intro matched[of w d p rating])
             (auto simp: fetch_returns_def scan_page_def done_then_pos set_pc_def)
      next
        case None
        note nomatch = Inr[unfolded this]
        show ?thesis
        proof (cases "nxt d")
          case Missing
          with st w FetchReturns d nomatch show ?thesis
            by (intro crashed[of w d p KeyError])
               (auto simp: fetch_returns_def scan_page_def raises_def set_pc_def)
        next
          case Null
          with st w pos FetchReturns d nomatch show ?thesis
            by (intro exhausted[of w d p])
               (auto simp: fetch_returns_def scan_page_def done_then_pos set_pc_def)
        next
          case (Url u)
          show ?thesis
          proof (cases "p = MAX_PAGE s")
            case False
            with st w pos FetchReturns d nomatch Url show ?thesis
              by (intro inner[of w d p u])
                 (auto simp: fetch_returns_def scan_page_def continue_page_def done_then_pos
                             set_pc_def)
          next
            case True
            show ?thesis
            proof (cases u)
              case (Inl e)
              with st w FetchReturns d nomatch Url True show ?thesis
                by (intro crashed[of w d p e])
                   (auto simp: fetch_returns_def scan_page_def continue_page_def raises_def
                               set_pc_def)
            next
              case (Inr np)
              show ?thesis
              proof (cases "found_event s")
                case False
                with st w pos FetchReturns d nomatch Url True Inr show ?thesis
                  by (intro advanced[of w d p np])
                     (auto simp: fetch_returns_def scan_page_def continue_page_def
                                 done_then_pos set_pc_def put_nowait_def Let_def)
              next
                case f: True
                with st w pos FetchReturns d nomatch Url True Inr show ?thesis
                  by (intro late[of w d p np])
                     (auto simp: fetch_returns_def scan_page_def continue_page_def
                                 done_then_pos set_pc_def Let_def)
              qed
            qed
          qed
        qed
      qed
    qed
  qed
next
  case JoinReturns
  with assms(2) show ?thesis
    by (intro join) (auto simp: join_returns_def funpow_put_nowait split: if_splits)
next
  case GatherReturns
  with assms(2) show ?thesis
    by (intro gather) (auto simp: gather_returns_def split: if_splits)
qed

lemma step_balanced:
  assumes "balanced s" and "step tgt a s = Some (es, s')"
  shows "balanced s'"
  using assms
proof (cases rule: step_cases)
  case (loop w)
  then show ?thesis
    using assms(1) count_update[of w "workers s" holding "if found_event s then Exited else Waiting"]
    by (auto simp: balanced_def raised_update)
next
  case (sentinel w rest)
  then show ?thesis
    using assms(1) count_update[of w "workers s" holding Exited]
    by (auto simp: balanced_def raised_update)
next
  case (page w p rest)
  then show ?thesis
    using assms(1) count_update[of w "workers s" holding "Fetching p"]
    by (auto simp: balanced_def raised_update)
next
  case (timeout w)
  then show ?thesis
    using assms(1) count_update[of w "workers s" holding Exited]
    by (auto simp: balanced_def raised_update)
next
  case (failed w p)
  then show ?thesis
    using assms(1) count_update[of w "workers s" holding Head]
    by (auto simp: balanced_def raised_update)
next
  case (crashed w p d e)
  then show ?thesis
    using assms(1) count_update[of w "workers s" holding "Crashed e"]
    by (auto simp: balanced_def raised_update)
next
  case (matched w p d r)
  then show ?thesis
    using assms(1) count_update[of w "workers s" holding Exited]
    by (auto simp: balanced_def raised_update)
next
  case (exhausted w p d)
  then show ?thesis
    using assms(1) count_update[of w "workers s" holding Exited]
    by (auto simp: balanced_def raised_update)
next
  case (advanced w p d np)
  then show ?thesis
    using assms(1) count_update[of w "workers s" holding Head]
    by (auto simp: balanced_def raised_update)
next
  case (late w p d np)
  then show ?thesis
    using assms(1) count_update[of w "workers s" holding Head]
    by (auto simp: balanced_def raised_update)
next
  case (inner w p d u)
  then show ?thesis
    using assms(1) count_update[of w "workers s" holding Head]
    by (auto simp: balanced_def raised_update)
next
  case join
  then show ?thesis
    using assms(1) by (auto simp: balanced_def)
next
  case gather
  then show ?thesis
    using assms(1) by (auto simp: balanced_def)
qed

lemma start_balanced: "balanced (find_starship_rating_start g n)"
  by (simp add: start_eq balanced_def)

lemma reach_balanced:
  "exec tgt as (find_starship_rating_start g n) = Some (tr, s) \<Longrightarrow> balanced s"
  by (rule exec_invariant[where P = "\<lambda>tr s. balanced s"]) (auto intro: start_balanced step_balanced)

lemma seen_append: "seen w (tr @ es) \<longleftrightarrow> seen w tr \<or> seen w es"
  by (auto simp: seen_def)

lemma seen_simps [simp]:
  "\<not> seen w []"
  "seen w (e # es) \<longleftrightarrow> e = IsSet w True \<or> e = SetEv w False \<or> e = SetEv w True \<or> seen w es"
  by (auto simp: seen_def)

lemma observations_simps [simp]:
  "observations [] = []"
  "observations (IsSet w b # es) = b # observations es"
  "observations (Got w x # es) = observations es"
  "observations (TimedOut w # es) = observations es"
  "observations (Fetch w p # es) = observations es"
  "observations (FetchError w p # es) = observations es"
  "observations (Store w r # es) = observations es"
  "observations (SetEv w b # es) = observations es"
  "observations (PutPage w p # es) = observations es"
  "observations (TaskDone w x # es) = observations es"
  "observations (tr @ es) = observations tr @ observations es"
  by (simp_all add: observations_def observation_def)

lemma kind_simps [simp]:
  "is_get (Got w x)" "\<not> is_get (IsSet w b)" "\<not> is_get (TimedOut w)" "\<not> is_get (Fetch w p)"
  "\<not> is_get (FetchError w p)" "\<not> is_get (Store w r)" "\<not> is_get (SetEv w b)"
  "\<not> is_get (PutPage w p)" "\<not> is_get (TaskDone w x)"
  "is_done (TaskDone w x)" "\<not> is_done (IsSet w b)" "\<not> is_done (TimedOut w)"
  "\<not> is_done (Fetch w p)" "\<not> is_done (FetchError w p)" "\<not> is_done (Store w r)"
  "\<not> is_done (SetEv w b)" "\<not> is_done (PutPage w p)" "\<not> is_done (Got w x)"
  "is_store (Store w r)" "\<not> is_store (IsSet w b)" "\<not> is_store (TimedOut w)"
  "\<not> is_store (Fetch w p)" "\<not> is_store (FetchError w p)" "\<not> is_store (TaskDone w x)"
  "\<not> is_store (SetEv w b)" "\<not> is_store (PutPage w p)" "\<not> is_store (Got w x)"
  "is_transition (SetEv w b) \<longleftrightarrow> \<not> b" "\<not> is_transition (IsSet w b)"
  "\<not> is_transition (TimedOut w)" "\<not> is_transition (Fetch w p)"
  "\<not> is_transition (FetchError w p)" "\<not> is_transition (TaskDone w x)"
  "\<not> is_transition (Store w r)" "\<not> is_transition (PutPage w p)" "\<not> is_transition (Got w x)"
  by (simp_all add: is_get_def is_done_def is_store_def is_transition_def)

lemma reach_invariant:
  assumes "exec tgt as (find_starship_rating_start g n) = Some (tr, s)"
    and "P [] (find_starship_rating_start g n)"
    and "\<And>tr s a es s'.
           balanced s \<Longrightarrow> P tr s \<Longrightarrow> step tgt a s = Some (es, s') \<Longrightarrow> P (tr @ es) s'"
  shows "P tr s"
proof -
  have "balanced s \<and> P tr s"
    using assms(1)
  proof (rule exec_invariant[where P = "\<lambda>tr s. balanced s \<and> P tr s"])
    show "balanced (find_starship_rating_start g n) \<and> P [] (find_starship_rating_start g n)"
      using assms(2) by (simp add: start_balanced)
  next
    fix tr s a es s'
    assume "balanced s \<and> P tr s" "step tgt a s = Some (es, s')"
    then show "balanced s' \<and> P (tr @ es) s'"
      using assms(3) by (auto intro: step_balanced)
  qed
  then show ?thesis by simp
qed


section \<open>Invariants of a call\<close>

lemma step_seen_inv:
  assumes "balanced s" and "seen_inv tr s" and "step tgt a s = Some (es, s')"
  shows "seen_inv (tr @ es) s'"
  using assms(1,3)
  by (cases rule: step_cases)
     (use assms(2) in \<open>auto simp: seen_inv_def seen_append nth_list_update\<close>)

lemma reach_seen_inv:
  assumes "exec tgt as (find_starship_rating_start g n) = Some (tr, s)"
  shows "seen_inv tr s"
  using assms
proof (rule reach_invariant)
  show "seen_inv [] (find_starship_rating_start g n)"
    by (simp add: seen_inv_def)
qed (rule step_seen_inv)

lemma step_tallied:
  assumes "balanced s" and "tallied tr s" and "step tgt a s = Some (es, s')"
  shows "tallied (tr @ es) s'"
  using assms(1,3)
proof (cases rule: step_cases)
  case (loop w)
  then show ?thesis
    using assms(2) count_update[of w "workers s" holding "if found_event s then Exited else Waiting"]
    by (auto simp: tallied_def)
next
  case (sentinel w rest)
  then show ?thesis
    using assms(2) count_update[of w "workers s" holding Exited]
    by (auto simp: tallied_def)
next
  case (page w p rest)
  then show ?thesis
    using assms(2) count_update[of w "workers s" holding "Fetching p"]
    by (auto simp: tallied_def)
next
  case (timeout w)
  then show ?thesis
    using assms(2) count_update[of w "workers s" holding Exited]
    by (auto simp: tallied_def)
next
  case (failed w p)
  then show ?thesis
    using assms(2) count_update[of w "workers s" holding Head]
    by (auto simp: tallied_def)
next
  case (crashed w p d e)
  then show ?thesis
    using assms(2) count_update[of w "workers s" holding "Crashed e"]
    by (auto simp: tallied_def)
next
  case (matched w p d r)
  then show ?thesis
    using assms(2) count_update[of w "workers s" holding Exited]
    by (auto simp: tallied_def)
next
  case (exhausted w p d)
  then show ?thesis
    using assms(2) count_update[of w "workers s" holding Exited]
    by (auto simp: tallied_def)
next
  case (advanced w p d np)
  then show ?thesis
    using assms(2) count_update[of w "workers s" holding Head]
    by (auto simp: tallied_def)
next
  case (late w p d np)
  then show ?thesis
    using assms(2) count_update[of w "workers s" holding Head]
    by (auto simp: tallied_def)
next
  case (inner w p d u)
  then show ?thesis
    using assms(2) count_update[of w "workers s" holding Head]
    by (auto simp: tallied_def)
next
  case join
  then show ?thesis
    using assms(2) by (auto simp: tallied_def)
next
  case gather
  then show ?thesis
    using assms(2) by (auto simp: tallied_def)
qed

lemma reach_tallied:
  assumes "exec tgt as (find_starship_rating_start g n) = Some (tr, s)"
  shows "tallied tr s"
  using assms
proof (rule reach_invariant)
  show "tallied [] (find_starship_rating_start g n)"
    by (simp add: tallied_def start_eq)
qed (rule step_tallied)

lemma step_flag_inv:
  assumes "balanced s" and "flag_inv tr s" and "step tgt a s = Some (es, s')"
  shows "flag_inv (tr @ es) s'"
  using assms(1,3)
  by (cases rule: step_cases)
     (use assms(2) in \<open>auto simp: flag_inv_def sorted_append\<close>)

lemma reach_flag_inv:
  assumes "exec tgt as (find_starship_rating_start g n) = Some (tr, s)"
  shows "flag_inv tr s"
  using assms
proof (rule reach_invariant)
  show "flag_inv [] (find_starship_rating_start g n)"
    by (simp add: flag_inv_def)
qed (rule step_flag_inv)

text \<open>
  \<open>MAX_PAGE\<close> changes in the steps that reach line 60 and in no other, and there it
  grows by one.
\<close>

lemma step_max_page:
  assumes "balanced s" and "step tgt a s = Some (es, s')"
  shows "MAX_PAGE s' = MAX_PAGE s + (if frontier_advance tgt a s then 1 else 0)"
  using assms
  by (cases rule: step_cases) (auto simp: frontier_advance_def split: sum.splits)

lemma reach_max_page:
  assumes "exec tgt as (find_starship_rating_start g n) = Some (tr, s)"
  shows "g \<le> MAX_PAGE s"
  using assms
proof (rule reach_invariant[where P = "\<lambda>tr s. g \<le> MAX_PAGE s"])
  show "g \<le> MAX_PAGE (find_starship_rating_start g n)"
    by (simp add: start_eq)
next
  fix tr s a es s'
  assume "balanced s" "g \<le> MAX_PAGE s" "step tgt a s = Some (es, s')"
  then show "g \<le> MAX_PAGE s'"
    using step_max_page[of s tgt a es s'] by (simp split: if_splits)
qed

lemma step_workers:
  assumes "balanced s" and "step tgt a s = Some (es, s')"
  shows "length (workers s') = length (workers s)"
  using assms by (cases rule: step_cases) auto

lemma reach_workers:
  assumes "exec tgt as (find_starship_rating_start g n) = Some (tr, s)"
  shows "length (workers s) = nat n"
  using assms
proof (rule reach_invariant[where P = "\<lambda>tr s. length (workers s) = nat n"])
  show "length (workers (find_starship_rating_start g n)) = nat n"
    by (simp add: start_eq)
qed (simp add: step_workers)

lemma exited_count_update:
  "i < length xs \<Longrightarrow> xs ! i \<noteq> Exited \<Longrightarrow>
   length (filter (\<lambda>c. c = Exited) (xs[i := y])) =
   length (filter (\<lambda>c. c = Exited) xs) + (if y = Exited then 1 else 0)"
  using count_update[of i xs "\<lambda>c. c = Exited" y] by simp

lemma step_store_inv:
  assumes "balanced s" and "store_inv tr s" and "step tgt a s = Some (es, s')"
  shows "store_inv (tr @ es) s'"
  using assms(1,3)
  by (cases rule: step_cases)
     (use assms(2) in \<open>auto simp: store_inv_def nth_list_update exited_count_update\<close>)

lemma reach_store_inv:
  assumes "exec tgt as (find_starship_rating_start g n) = Some (tr, s)"
  shows "store_inv tr s"
  using assms
proof (rule reach_invariant)
  show "store_inv [] (find_starship_rating_start g n)"
    by (simp add: store_inv_def)
qed (rule step_store_inv)

lemma step_found_event:
  assumes "balanced s" and "found_event s" and "step tgt a s = Some (es, s')"
  shows "found_event s'"
  using assms(1,3) by (cases rule: step_cases) (use assms(2) in auto)

lemma exec_found_event:
  assumes "exec tgt as s = Some (tr, s')" and "balanced s" and "found_event s"
  shows "found_event s'"
proof -
  have "balanced s' \<and> found_event s'"
    using assms(1)
  proof (rule exec_invariant[where P = "\<lambda>tr s. balanced s \<and> found_event s"])
    show "balanced s \<and> found_event s"
      using assms(2,3) by simp
  next
    fix tr s a es s'
    assume "balanced s \<and> found_event s" "step tgt a s = Some (es, s')"
    then show "balanced s' \<and> found_event s'"
      by (auto intro: step_balanced step_found_event)
  qed
  then show ?thesis by simp
qed

text \<open>
  When every worker has ended and the coordinator is in \<open>queue.join()\<close> with an item
  unfinished, nothing can happen any more.
\<close>

lemma stuck:
  assumes "coordinator s = Joining" and "0 < unfinished_tasks s"
    and "list_all ended (workers s)"
  shows "step tgt a s = None"
proof (cases a)
  case (FetchReturns w r)
  then show ?thesis
    using assms(3) by (auto simp: list_all_length ended_def split: pc.splits)
qed (use assms in \<open>auto simp: list_all_length ended_def\<close>)

lemma stored_simps [simp]:
  "stored [] = []"
  "stored (tr @ es) = stored tr @ stored es"
  "stored (Store w r # es) = r # stored es"
  "stored (IsSet w b # es) = stored es"
  "stored (Got w x # es) = stored es"
  "stored (TimedOut w # es) = stored es"
  "stored (Fetch w p # es) = stored es"
  "stored (FetchError w p # es) = stored es"
  "stored (SetEv w b # es) = stored es"
  "stored (PutPage w p # es) = stored es"
  "stored (TaskDone w x # es) = stored es"
  by (simp_all add: stored_def)

lemma ended_nth:
  "list_all ended xs \<Longrightarrow> i < length xs \<Longrightarrow>
   xs ! i \<noteq> Head \<and> xs ! i \<noteq> Waiting \<and> xs ! i \<noteq> Fetching p"
  by (auto simp: list_all_length ended_def split: pc.splits)

lemma step_result_inv:
  assumes "balanced s" and "result_inv tr s" and "step tgt a s = Some (es, s')"
  shows "result_inv (tr @ es) s'"
  using assms(1,3)
  by (cases rule: step_cases)
     (use assms(2) ended_nth[of "workers s"] in \<open>auto simp: result_inv_def\<close>)

lemma reach_result_inv:
  assumes "exec tgt as (find_starship_rating_start g n) = Some (tr, s)"
  shows "result_inv tr s"
  using assms
proof (rule reach_invariant)
  show "result_inv [] (find_starship_rating_start g n)"
    by (simp add: result_inv_def start_eq)
qed (rule step_result_inv)

text \<open>
  A call that returns, returns the rating stored last, and \<open>None\<close> when none was stored.
\<close>

lemma returned_value:
  assumes "exec tgt as (find_starship_rating_start g n) = Some (tr, s)"
    and "coordinator s = Returned v"
  shows "v = (if stored tr = [] then None else Some (last (stored tr)))"
  using reach_result_inv[OF assms(1)] assms(2) by (simp add: result_inv_def)

text \<open>
  When the page a worker holds arrives, or its fetch fails, the worker either marks the
  page done, once, and goes on or exits, or an exception ends it and it has not marked
  the page done.
\<close>

lemma page_done_or_crashed:
  assumes "balanced s" and "w < length (workers s)" and "workers s ! w = Fetching p"
  shows "\<exists>es s'. step tgt (FetchReturns w r) s = Some (es, s') \<and>
           (filter is_done es = [TaskDone w (Some p)] \<and>
              (workers s' ! w = Head \<or> workers s' ! w = Exited) \<or>
            es = [] \<and> (\<exists>e. workers s' ! w = Crashed e) \<and>
              unfinished_tasks s' = unfinished_tasks s)"
proof -
  obtain es s' where st: "step tgt (FetchReturns w r) s = Some (es, s')"
    using assms(2,3) by (cases "fetch_returns tgt w p r s") simp
  from assms(1) st have "filter is_done es = [TaskDone w (Some p)] \<and>
              (workers s' ! w = Head \<or> workers s' ! w = Exited) \<or>
            es = [] \<and> (\<exists>e. workers s' ! w = Crashed e) \<and>
              unfinished_tasks s' = unfinished_tasks s"
    by (cases rule: step_cases) (use assms(2,3) in auto)
  with st show ?thesis by blast
qed

subsection \<open>The run of three workers, step by step\<close>

lemma after_6: "after 6 = Some (trace_6, state_6)"
  unfolding after_def trace_6_def state_6_def by code_simp

lemma after_8: "after 8 = Some (trace_8, state_8)"
  unfolding after_def trace_8_def trace_6_def state_8_def by code_simp

lemma after_10: "after 10 = Some (trace_10, state_10)"
  unfolding after_def trace_10_def trace_8_def trace_6_def state_10_def by code_simp

lemma after_12: "after 12 = Some (trace_12, state_12)"
  unfolding after_def trace_12_def trace_10_def trace_8_def trace_6_def state_12_def
  by code_simp

lemma after_13: "after 13 = Some (trace_13, state_13)"
  unfolding after_def trace_13_def trace_12_def trace_10_def trace_8_def trace_6_def
    state_13_def
  by code_simp

lemma after_14: "after 14 = Some (trace_14, state_14)"
  unfolding after_def trace_14_def trace_13_def trace_12_def trace_10_def trace_8_def
    trace_6_def state_14_def
  by code_simp

lemma after_18: "after 18 = Some (trace_18, state_18)"
  unfolding after_def trace_18_def trace_14_def trace_13_def trace_12_def trace_10_def
    trace_8_def trace_6_def state_18_def
  by code_simp

section \<open>The claims\<close>

text \<open>
  In the theorems below \<open>exec tgt as (find_starship_rating_start g n) = Some (tr, s)\<close>
  says that \<open>s\<close> is a state one call can be in, for a module global \<open>g\<close> and \<open>n\<close>
  workers, under some order of the workers and some answers of the network, and that
  \<open>tr\<close> is what has happened until then.
\<close>

text \<open>
  C1. With one worker and the starship on page 1, the worker sets the flag and returns
  while page 2 is still in the queue. One item stays unfinished for ever, no step is
  possible any more, and the coordinator is still in \<open>queue.join()\<close>: the call does not
  return.
\<close>

theorem join_never_returns:
  "exec ''death star'' hang_run (find_starship_rating_start MAX_PAGE_at_import 1) =
     Some (hang_trace, hang_state) \<and>
   coordinator hang_state = Joining \<and> workers hang_state = [Exited] \<and>
   queue hang_state = [Some 2] \<and> unfinished_tasks hang_state = 1 \<and>
   (\<forall>a. step ''death star'' a hang_state = None)"
proof -
  have "exec ''death star'' hang_run (find_starship_rating_start MAX_PAGE_at_import 1) =
      Some (hang_trace, hang_state)"
    unfolding hang_trace_def hang_state_def by code_simp
  moreover have "step ''death star'' a hang_state = None" for a
    by (rule stuck) (simp_all add: hang_state_def)
  ultimately show ?thesis
    by (simp add: hang_state_def)
qed

text \<open>
  C2, as the claim states it, fails twice. In the first run page 2, the last page, comes
  back first: worker 2 sets the flag for exhaustion, and worker 1, whose page holds the
  starship, stores the rating afterwards, its \<open>set\<close> finding the flag set already. In the
  second run two pages hold a starship of that name and both workers store a rating.
\<close>

theorem single_write_counterexample:
  "exec ''death star'' late_match_run (find_starship_rating_start MAX_PAGE_at_import 3) =
     Some (late_match_trace,
           \<lparr>queue = [None, None, None], unfinished_tasks = 3, found_event = True,
            result_dict = Some ''4.0'', MAX_PAGE = 2, workers = [Exited, Exited, Exited],
            coordinator = Returned (Some ''4.0'')\<rparr>) \<and>
   filter is_store late_match_trace = [Store 1 ''4.0''] \<and>
   filter is_transition late_match_trace = [SetEv 2 False] \<and>
   exec ''X-Wing'' twin_run (find_starship_rating_start MAX_PAGE_at_import 3) =
     Some (twin_trace,
           \<lparr>queue = [None, None, None], unfinished_tasks = 3, found_event = True,
            result_dict = Some ''1.5'', MAX_PAGE = 2, workers = [Exited, Exited, Exited],
            coordinator = Returned (Some ''1.5'')\<rparr>) \<and>
   filter is_store twin_trace = [Store 1 ''1.0'', Store 2 ''1.5'']"
proof -
  have "exec ''death star'' late_match_run (find_starship_rating_start MAX_PAGE_at_import 3) =
     Some (late_match_trace,
           \<lparr>queue = [None, None, None], unfinished_tasks = 3, found_event = True,
            result_dict = Some ''4.0'', MAX_PAGE = 2, workers = [Exited, Exited, Exited],
            coordinator = Returned (Some ''4.0'')\<rparr>)"
    unfolding late_match_trace_def by code_simp
  moreover have "exec ''X-Wing'' twin_run (find_starship_rating_start MAX_PAGE_at_import 3) =
     Some (twin_trace,
           \<lparr>queue = [None, None, None], unfinished_tasks = 3, found_event = True,
            result_dict = Some ''1.5'', MAX_PAGE = 2, workers = [Exited, Exited, Exited],
            coordinator = Returned (Some ''1.5'')\<rparr>)"
    unfolding twin_trace_def by code_simp
  moreover have "filter is_store late_match_trace = [Store 1 ''4.0'']"
    "filter is_transition late_match_trace = [SetEv 2 False]"
    "filter is_store twin_trace = [Store 1 ''1.0'', Store 2 ''1.5'']"
    by (simp_all add: late_match_trace_def twin_trace_def)
  ultimately show ?thesis
    by (intro conjI)
qed

text \<open>
  C2, amended. A step that stores a result is the step of a worker whose page has
  arrived with a match: it stores the rating of that match, calls \<open>set\<close>, marks the page
  done and exits, all in that one step, so the flag is set after every store, whether
  that call of \<open>set\<close> changed it or not. The worker has not stored before, and a call
  of \<open>n\<close> workers has at most \<open>n\<close> stores.
\<close>

theorem result_stored_on_match:
  assumes "exec tgt as (find_starship_rating_start g n) = Some (tr, s)"
    and "step tgt a s = Some (es, s')"
    and "Store w r \<in> set es"
  shows "(\<exists>p d. a = FetchReturns w (Some d) \<and> workers s ! w = Fetching p \<and>
            find_match tgt d = Inr (Some r) \<and>
            es = [Store w r, SetEv w (found_event s), TaskDone w (Some p)]) \<and>
         result_dict s' = Some r \<and> found_event s' \<and> workers s' ! w = Exited \<and>
         (\<forall>r'. Store w r' \<notin> set tr) \<and>
         length (filter is_store (tr @ es)) \<le> nat n"
proof -
  have b: "balanced s"
    using assms(1) by (rule reach_balanced)
  have i: "store_inv tr s"
    using assms(1) by (rule reach_store_inv)
  have r': "exec tgt (as @ [a]) (find_starship_rating_start g n) = Some (tr @ es, s')"
    using assms(1,2) by (simp add: exec_snoc)
  have "store_inv (tr @ es) s'"
    using r' by (rule reach_store_inv)
  then have "length (filter is_store (tr @ es)) \<le> length (filter (\<lambda>c. c = Exited) (workers s'))"
    by (simp add: store_inv_def)
  also have "\<dots> \<le> length (workers s')"
    by (rule length_filter_le)
  also have "\<dots> = nat n"
    using r' by (rule reach_workers)
  finally have n: "length (filter is_store (tr @ es)) \<le> nat n" .
  from b assms(2) have "(\<exists>p d. a = FetchReturns w (Some d) \<and> workers s ! w = Fetching p \<and>
            find_match tgt d = Inr (Some r) \<and>
            es = [Store w r, SetEv w (found_event s), TaskDone w (Some p)]) \<and>
         result_dict s' = Some r \<and> found_event s' \<and> workers s' ! w = Exited \<and>
         (\<forall>r'. Store w r' \<notin> set tr)"
  proof (cases rule: step_cases)
    case (matched w' p d r0)
    then have e: "w' = w" "r0 = r"
      using assms(3) by simp_all
    have "Store w r' \<notin> set tr" for r'
      using i matched(2,3) e by (auto simp: store_inv_def)
    then show ?thesis
      using matched e by simp
  qed (use assms(3) in simp_all)
  with n show ?thesis by simp
qed

theorem result_stored_on_match_witness:
  "exec ''jedi interceptor'' (take 13 search_run) (find_starship_rating_start 2 3) =
     Some (trace_13, state_13) \<and>
   step ''jedi interceptor'' (FetchReturns 2 (Some page_3)) state_13 =
     Some ([Store 2 ''1.0'', SetEv 2 False, TaskDone 2 (Some 3)], state_14) \<and>
   Store 2 ''1.0'' \<in> set [Store 2 ''1.0'', SetEv 2 False, TaskDone 2 (Some 3)] \<and>
   find_match ''jedi interceptor'' page_3 = Inr (Some ''1.0'') \<and>
   result_dict state_14 = Some ''1.0'' \<and> found_event state_14 \<and>
   workers state_14 ! 2 = Exited \<and>
   length (filter is_store (trace_13 @ [Store 2 ''1.0'', SetEv 2 False, TaskDone 2 (Some 3)]))
     \<le> nat 3"
proof -
  have r: "exec ''jedi interceptor'' (take 13 search_run) (find_starship_rating_start 2 3) =
      Some (trace_13, state_13)"
    using after_13 by (simp add: after_def MAX_PAGE_at_import_def)
  have st: "step ''jedi interceptor'' (FetchReturns 2 (Some page_3)) state_13 =
      Some ([Store 2 ''1.0'', SetEv 2 False, TaskDone 2 (Some 3)], state_14)"
    unfolding state_13_def state_14_def by code_simp
  have m: "Store 2 ''1.0'' \<in> set [Store 2 ''1.0'', SetEv 2 False, TaskDone 2 (Some 3)]"
    by simp
  have f: "find_match ''jedi interceptor'' page_3 = Inr (Some ''1.0'')"
    by code_simp
  show ?thesis
    using result_stored_on_match[OF r st m] r st m f by simp
qed

text \<open>
  C3. The claim fails where the page cannot be read. Lines 42 to 59 are outside the
  \<open>try\<close> of lines 34 to 39, so an exception raised there ends the worker with the page it
  got from the queue never marked done. In the first run the answer for page 1 has no
  \<open>"results"\<close>: page 1 was got once and marked done never. In the second run page 2, the
  page \<open>MAX_PAGE\<close>, has a next page whose URL carries no \<open>page\<close>: page 2 was got once and
  marked done never. In both the item stays unfinished, the only worker has ended, and
  the coordinator waits in \<open>queue.join()\<close> with no step left.
\<close>

theorem page_never_marked_done:
  "exec ''jedi interceptor'' no_results_run (find_starship_rating_start MAX_PAGE_at_import 1) =
     Some (no_results_trace, no_results_state) \<and>
   count_list no_results_trace (Got 0 (Some 1)) = 1 \<and>
   count_list no_results_trace (TaskDone 0 (Some 1)) = 0 \<and>
   workers no_results_state = [Crashed KeyError] \<and>
   unfinished_tasks no_results_state = 2 \<and> coordinator no_results_state = Joining \<and>
   (\<forall>a. step ''jedi interceptor'' a no_results_state = None) \<and>
   exec ''jedi interceptor'' no_page_number_run
       (find_starship_rating_start MAX_PAGE_at_import 1) =
     Some (no_page_number_trace, no_page_number_state) \<and>
   count_list no_page_number_trace (Got 0 (Some 2)) = 1 \<and>
   count_list no_page_number_trace (TaskDone 0 (Some 2)) = 0 \<and>
   workers no_page_number_state = [Crashed KeyError] \<and>
   unfinished_tasks no_page_number_state = 1 \<and> coordinator no_page_number_state = Joining \<and>
   (\<forall>a. step ''jedi interceptor'' a no_page_number_state = None)"
proof -
  have "exec ''jedi interceptor'' no_results_run
        (find_starship_rating_start MAX_PAGE_at_import 1) =
      Some (no_results_trace, no_results_state)"
    unfolding no_results_trace_def no_results_state_def by code_simp
  moreover have "exec ''jedi interceptor'' no_page_number_run
        (find_starship_rating_start MAX_PAGE_at_import 1) =
      Some (no_page_number_trace, no_page_number_state)"
    unfolding no_page_number_trace_def no_page_number_state_def by code_simp
  moreover have "step ''jedi interceptor'' a no_results_state = None" for a
    by (rule stuck) (simp_all add: no_results_state_def)
  moreover have "step ''jedi interceptor'' a no_page_number_state = None" for a
    by (rule stuck) (simp_all add: no_page_number_state_def)
  moreover have "count_list no_results_trace (Got 0 (Some 1)) = 1"
    "count_list no_results_trace (TaskDone 0 (Some 1)) = 0"
    "count_list no_page_number_trace (Got 0 (Some 2)) = 1"
    "count_list no_page_number_trace (TaskDone 0 (Some 2)) = 0"
    by (simp_all add: no_results_trace_def no_page_number_trace_def)
  ultimately show ?thesis
    by (simp add: no_results_state_def no_page_number_state_def)
qed

text \<open>
  C4. A worker that starts a fetch has never read the flag as set, nor set it: it starts
  the fetch in the step in which it gets the page from the queue. And once the flag is
  set, no page number is put in the queue any more (only the sentinels of the
  coordinator are), so the pages fetched after that are pages that were in the queue or
  with a worker already.
\<close>

theorem no_fetch_after_observing:
  assumes "exec tgt as (find_starship_rating_start g n) = Some (tr, s)"
    and "step tgt a s = Some (es, s')"
  shows "(Fetch w p \<in> set es \<longrightarrow>
            \<not> seen w tr \<and> a = GetReturns w \<and> es = [Got w (Some p), Fetch w p]) \<and>
         (found_event s \<longrightarrow>
            PutPage w q \<notin> set es \<and> set (queue s') \<subseteq> insert None (set (queue s)))"
proof -
  have b: "balanced s"
    using assms(1) by (rule reach_balanced)
  have i: "seen_inv tr s"
    using assms(1) by (rule reach_seen_inv)
  from b assms(2) show ?thesis
    by (cases rule: step_cases) (use i in \<open>auto simp: seen_inv_def\<close>)
qed

theorem no_fetch_after_observing_witness:
  "exec ''jedi interceptor'' (take 12 search_run) (find_starship_rating_start 2 3) =
     Some (trace_12, state_12) \<and>
   step ''jedi interceptor'' (GetReturns 2) state_12 =
     Some ([Got 2 (Some 3), Fetch 2 3], state_13) \<and>
   Fetch 2 3 \<in> set [Got 2 (Some 3), Fetch 2 3] \<and> \<not> seen 2 trace_12 \<and>
   exec ''jedi interceptor'' (take 14 search_run) (find_starship_rating_start 2 3) =
     Some (trace_14, state_14) \<and>
   step ''jedi interceptor'' JoinReturns state_14 =
     Some ([], state_14\<lparr>queue := [None, None, None], unfinished_tasks := 3,
                        coordinator := Gathering\<rparr>) \<and>
   found_event state_14 \<and>
   set (queue (state_14\<lparr>queue := [None, None, None], unfinished_tasks := 3,
                      coordinator := Gathering\<rparr>)) \<subseteq>
     insert None (set (queue state_14))"
proof -
  have r: "exec ''jedi interceptor'' (take 12 search_run) (find_starship_rating_start 2 3) =
      Some (trace_12, state_12)"
    using after_12 by (simp add: after_def MAX_PAGE_at_import_def)
  have st: "step ''jedi interceptor'' (GetReturns 2) state_12 =
      Some ([Got 2 (Some 3), Fetch 2 3], state_13)"
    unfolding state_12_def state_13_def by code_simp
  have r': "exec ''jedi interceptor'' (take 14 search_run) (find_starship_rating_start 2 3) =
      Some (trace_14, state_14)"
    using after_14 by (simp add: after_def MAX_PAGE_at_import_def)
  have st': "step ''jedi interceptor'' JoinReturns state_14 =
      Some ([], state_14\<lparr>queue := [None, None, None], unfinished_tasks := 3,
                         coordinator := Gathering\<rparr>)"
    unfolding state_14_def by code_simp
  have f: "found_event state_14"
    by (simp add: state_14_def)
  show ?thesis
    using no_fetch_after_observing[OF r st, of 2 3 2]
      no_fetch_after_observing[OF r' st', of 2 3 2] r st r' st' f
    by simp
qed

text \<open>
  C5. With two workers and the starship on page 1, asked for in capitals, the match is
  found and its rating is stored, but page 2 is never taken from the queue: the
  coordinator stays in \<open>queue.join()\<close> and the rating is never returned.
\<close>

theorem rating_found_but_not_returned:
  "exec ''DEATH STAR'' hang_run_2 (find_starship_rating_start MAX_PAGE_at_import 2) =
     Some (hang_trace_2, hang_state_2) \<and>
   find_match ''DEATH STAR'' page_1 = Inr (Some ''4.0'') \<and>
   result_dict hang_state_2 = Some ''4.0'' \<and> coordinator hang_state_2 = Joining \<and>
   (\<forall>a. step ''DEATH STAR'' a hang_state_2 = None)"
proof -
  have "exec ''DEATH STAR'' hang_run_2 (find_starship_rating_start MAX_PAGE_at_import 2) =
      Some (hang_trace_2, hang_state_2)"
    unfolding hang_trace_2_def hang_state_2_def by code_simp
  moreover have "find_match ''DEATH STAR'' page_1 = Inr (Some ''4.0'')"
    by code_simp
  moreover have "step ''DEATH STAR'' a hang_state_2 = None" for a
    by (rule stuck) (simp_all add: hang_state_2_def)
  ultimately show ?thesis
    by (simp add: hang_state_2_def)
qed

text \<open>
  C6, as the claim states it, fails. The search of three pages returns with \<open>MAX_PAGE\<close>
  raised from 2 to 3, and a call after it puts four page numbers in its queue where the
  first call put three.
\<close>

theorem fresh_frontier_counterexample:
  "exec ''jedi interceptor'' search_run (find_starship_rating_start MAX_PAGE_at_import 3) =
     Some (trace_18, state_18) \<and>
   coordinator state_18 = Returned (Some ''1.0'') \<and> MAX_PAGE state_18 = 3 \<and>
   queue (find_starship_rating_start MAX_PAGE_at_import 3) = [Some 0, Some 1, Some 2] \<and>
   queue (find_starship_rating_again state_18 3) = [Some 0, Some 1, Some 2, Some 3]"
proof -
  have "exec ''jedi interceptor'' search_run (find_starship_rating_start MAX_PAGE_at_import 3) =
      Some (trace_18, state_18)"
    unfolding trace_18_def trace_14_def trace_13_def trace_12_def trace_10_def trace_8_def
      trace_6_def state_18_def
    by code_simp
  moreover have "queue (find_starship_rating_start MAX_PAGE_at_import 3) =
      [Some 0, Some 1, Some 2]"
    by code_simp
  moreover have "queue (find_starship_rating_again state_18 3) =
      [Some 0, Some 1, Some 2, Some 3]"
    unfolding state_18_def by code_simp
  ultimately show ?thesis
    by (simp add: state_18_def)
qed

text \<open>
  C6, amended. Whatever state \<open>s\<close> a call has left behind, a call that starts then has a
  flag that is unset, no result, a queue of its own that holds the pages 0 to \<open>MAX_PAGE\<close>
  and workers of its own: it starts as a first call would in a module whose \<open>MAX_PAGE\<close>
  is the one of \<open>s\<close>, so of all that the earlier call changed it sees \<open>MAX_PAGE\<close> and
  nothing else. \<open>MAX_PAGE\<close> is not fresh: a step of a call that reaches line 60 raises
  it by one, no other step changes it, and so it is at least what the call started
  from.
\<close>

theorem later_call_keeps_frontier:
  assumes "exec tgt as (find_starship_rating_start g n) = Some (tr, s)"
  shows "find_starship_rating_again s m =
           \<lparr>queue = map Some [0..MAX_PAGE s], unfinished_tasks = length [0..MAX_PAGE s],
            found_event = False, result_dict = None, MAX_PAGE = MAX_PAGE s,
            workers = replicate (nat m) Head, coordinator = Joining\<rparr> \<and>
         find_starship_rating_again s m = find_starship_rating_start (MAX_PAGE s) m \<and>
         g \<le> MAX_PAGE s \<and>
         (step tgt a s = Some (es, s') \<longrightarrow>
            MAX_PAGE s' = MAX_PAGE s + (if frontier_advance tgt a s then 1 else 0))"
proof -
  have "balanced s"
    using assms by (rule reach_balanced)
  then have "MAX_PAGE s' = MAX_PAGE s + (if frontier_advance tgt a s then 1 else 0)"
    if "step tgt a s = Some (es, s')"
    using that by (rule step_max_page)
  moreover have "g \<le> MAX_PAGE s"
    using assms by (rule reach_max_page)
  moreover have "find_starship_rating_again s m = find_starship_rating_start (MAX_PAGE s) m"
    by (rule again_eq)
  ultimately show ?thesis
    by (simp add: start_eq)
qed

theorem later_call_keeps_frontier_witness:
  "exec ''jedi interceptor'' search_run (find_starship_rating_start 2 3) =
     Some (trace_18, state_18) \<and>
   find_starship_rating_again state_18 3 =
     \<lparr>queue = map Some [0..MAX_PAGE state_18], unfinished_tasks = length [0..MAX_PAGE state_18],
      found_event = False, result_dict = None, MAX_PAGE = MAX_PAGE state_18,
      workers = replicate (nat 3) Head, coordinator = Joining\<rparr> \<and>
   find_starship_rating_again state_18 3 = find_starship_rating_start (MAX_PAGE state_18) 3 \<and>
   2 \<le> MAX_PAGE state_18 \<and>
   exec ''jedi interceptor'' (take 10 search_run) (find_starship_rating_start 2 3) =
     Some (trace_10, state_10) \<and>
   step ''jedi interceptor'' (FetchReturns 2 (Some page_2)) state_10 =
     Some ([IsSet 2 False, PutPage 2 3, TaskDone 2 (Some 2)],
           state_10\<lparr>queue := [Some 3], MAX_PAGE := 3, workers := [Waiting, Waiting, Head]\<rparr>) \<and>
   frontier_advance ''jedi interceptor'' (FetchReturns 2 (Some page_2)) state_10 \<and>
   MAX_PAGE (state_10\<lparr>queue := [Some 3], MAX_PAGE := 3, workers := [Waiting, Waiting, Head]\<rparr>) =
     MAX_PAGE state_10 + 1"
proof -
  have r: "exec ''jedi interceptor'' search_run (find_starship_rating_start 2 3) =
      Some (trace_18, state_18)"
    unfolding trace_18_def trace_14_def trace_13_def trace_12_def trace_10_def trace_8_def
      trace_6_def state_18_def
    by code_simp
  have r': "exec ''jedi interceptor'' (take 10 search_run) (find_starship_rating_start 2 3) =
      Some (trace_10, state_10)"
    using after_10 by (simp add: after_def MAX_PAGE_at_import_def)
  have st: "step ''jedi interceptor'' (FetchReturns 2 (Some page_2)) state_10 =
     Some ([IsSet 2 False, PutPage 2 3, TaskDone 2 (Some 2)],
           state_10\<lparr>queue := [Some 3], MAX_PAGE := 3, workers := [Waiting, Waiting, Head]\<rparr>)"
    unfolding state_10_def by code_simp
  have f: "frontier_advance ''jedi interceptor'' (FetchReturns 2 (Some page_2)) state_10"
    unfolding state_10_def by code_simp
  have a: "find_starship_rating_again state_18 3 =
     \<lparr>queue = map Some [0..MAX_PAGE state_18], unfinished_tasks = length [0..MAX_PAGE state_18],
      found_event = False, result_dict = None, MAX_PAGE = MAX_PAGE state_18,
      workers = replicate (nat 3) Head, coordinator = Joining\<rparr> \<and>
     find_starship_rating_again state_18 3 = find_starship_rating_start (MAX_PAGE state_18) 3 \<and>
     2 \<le> MAX_PAGE state_18"
    using later_call_keeps_frontier[OF r, of 3 JoinReturns "[]" state_18] by blast
  have "MAX_PAGE (state_10\<lparr>queue := [Some 3], MAX_PAGE := 3,
          workers := [Waiting, Waiting, Head]\<rparr>) = MAX_PAGE state_10 + 1"
    using later_call_keeps_frontier[OF r', of 3 "FetchReturns 2 (Some page_2)"
        "[IsSet 2 False, PutPage 2 3, TaskDone 2 (Some 2)]"
        "state_10\<lparr>queue := [Some 3], MAX_PAGE := 3, workers := [Waiting, Waiting, Head]\<rparr>"]
      st f
    by presburger
  with a r r' st f show ?thesis
    by blast
qed

text \<open>
  C7. A fetch that fails is handled by the worker alone: the error is printed, the item
  is marked done, and the worker is back at the loop condition, from where it waits for
  the next item unless the flag is set. The flag, the result, the queue, the frontier and
  the coordinator are left as they were.
\<close>

theorem fetch_failure_is_local:
  assumes "exec tgt as (find_starship_rating_start g n) = Some (tr, s)"
    and "w < length (workers s)" and "workers s ! w = Fetching p"
  shows "\<exists>s'. step tgt (FetchReturns w None) s =
               Some ([FetchError w p, TaskDone w (Some p)], s') \<and>
           workers s' = (workers s)[w := Head] \<and>
           unfinished_tasks s' + 1 = unfinished_tasks s \<and>
           found_event s' = found_event s \<and> result_dict s' = result_dict s \<and>
           queue s' = queue s \<and> MAX_PAGE s' = MAX_PAGE s \<and>
           coordinator s' = coordinator s \<and>
           step tgt (Loop w) s' =
             Some ([IsSet w (found_event s)],
                   s'\<lparr>workers := (workers s')[w := if found_event s then Exited else Waiting]\<rparr>)"
proof -
  have "balanced s"
    using assms(1) by (rule reach_balanced)
  then have "0 < unfinished_tasks s"
    using assms(2,3) by (rule balanced_fetching_pos)
  then show ?thesis
    using assms(2,3)
    by (simp add: fetch_returns_def done_then_pos set_pc_def loop_head_def)
qed

theorem fetch_failure_is_local_witness:
  "exec ''jedi interceptor'' (take 6 search_run) (find_starship_rating_start 2 3) =
     Some (trace_6, state_6) \<and>
   (0::nat) < length (workers state_6) \<and> workers state_6 ! 0 = Fetching 0 \<and>
   (\<exists>s'. step ''jedi interceptor'' (FetchReturns 0 None) state_6 =
            Some ([FetchError 0 0, TaskDone 0 (Some 0)], s') \<and>
          workers s' = [Head, Fetching 1, Fetching 2] \<and> unfinished_tasks s' = 2 \<and>
          \<not> found_event s' \<and> coordinator s' = Joining)"
proof -
  have r: "exec ''jedi interceptor'' (take 6 search_run) (find_starship_rating_start 2 3) =
      Some (trace_6, state_6)"
    using after_6 by (simp add: after_def MAX_PAGE_at_import_def)
  have w: "(0::nat) < length (workers state_6)" "workers state_6 ! 0 = Fetching 0"
    by (simp_all add: state_6_def)
  show ?thesis
    using fetch_failure_is_local[OF r w] r w by (auto simp: state_6_def)
qed

text \<open>
  C8. The flag never goes back: if it is set in a state of a call, it is set in every
  later state. What the workers read from it, in the order they read it, is \<open>False\<close>
  until it is \<open>True\<close> and \<open>True\<close> from then on, and at most one call of \<open>set\<close> finds the
  flag unset.
\<close>

theorem found_event_monotonic:
  assumes "exec tgt as (find_starship_rating_start g n) = Some (tr, s)"
    and "exec tgt as' s = Some (tr', s')"
  shows "(found_event s \<longrightarrow> found_event s') \<and>
         sorted (observations (tr @ tr')) \<and>
         (True \<in> set (observations tr) \<longrightarrow> False \<notin> set (observations tr')) \<and>
         length (filter is_transition (tr @ tr')) \<le> 1"
proof -
  have b: "balanced s"
    using assms(1) by (rule reach_balanced)
  have "exec tgt (as @ as') (find_starship_rating_start g n) = Some (tr @ tr', s')"
    using assms by (simp add: exec_append)
  then have "flag_inv (tr @ tr') s'"
    by (rule reach_flag_inv)
  then have f: "sorted (observations tr @ observations tr')"
    "length (filter is_transition (tr @ tr')) \<le> 1"
    by (simp_all add: flag_inv_def)
  have "False \<notin> set (observations tr')" if "True \<in> set (observations tr)"
    using f(1) that by (auto simp: sorted_append)
  moreover have "found_event s'" if "found_event s"
    using assms(2) b that by (rule exec_found_event)
  ultimately show ?thesis
    using f by simp
qed

theorem found_event_monotonic_witness:
  "exec ''jedi interceptor'' exhausted_run (find_starship_rating_start 2 3) =
     Some (exhausted_trace, exhausted_state) \<and>
   exec ''jedi interceptor'' [FetchReturns 1 (Some page_1), Loop 1] exhausted_state =
     Some ([TaskDone 1 (Some 1), IsSet 1 True],
           exhausted_state\<lparr>unfinished_tasks := 0, workers := [Exited, Exited, Exited]\<rparr>) \<and>
   found_event exhausted_state \<and>
   found_event (exhausted_state\<lparr>unfinished_tasks := 0, workers := [Exited, Exited, Exited]\<rparr>) \<and>
   True \<in> set (observations exhausted_trace) \<and>
   False \<notin> set (observations [TaskDone 1 (Some 1), IsSet 1 True]) \<and>
   sorted (observations (exhausted_trace @ [TaskDone 1 (Some 1), IsSet 1 True])) \<and>
   length (filter is_transition (exhausted_trace @ [TaskDone 1 (Some 1), IsSet 1 True])) \<le> 1"
proof -
  have r: "exec ''jedi interceptor'' exhausted_run (find_starship_rating_start 2 3) =
      Some (exhausted_trace, exhausted_state)"
    unfolding exhausted_trace_def exhausted_state_def by code_simp
  have r': "exec ''jedi interceptor'' [FetchReturns 1 (Some page_1), Loop 1] exhausted_state =
      Some ([TaskDone 1 (Some 1), IsSet 1 True],
            exhausted_state\<lparr>unfinished_tasks := 0, workers := [Exited, Exited, Exited]\<rparr>)"
    unfolding exhausted_state_def by code_simp
  have f: "found_event exhausted_state"
    by (simp add: exhausted_state_def)
  have t: "True \<in> set (observations exhausted_trace)"
    by (simp add: exhausted_trace_def)
  show ?thesis
    using found_event_monotonic[OF r r'] r r' f t by blast
qed

text \<open>
  C9. When a page without a match has a next page and is the page \<open>MAX_PAGE\<close>, the worker
  raises \<open>MAX_PAGE\<close> by one whatever the flag says, and puts the next page in the queue
  only if it reads the flag as unset at that moment. A worker that puts a page in the
  queue has never read the flag as set, nor set it.
\<close>

theorem frontier_put_is_guarded:
  assumes "exec tgt as (find_starship_rating_start g n) = Some (tr, s)"
    and "step tgt a s = Some (es, s')"
  shows "(a = FetchReturns w (Some d) \<and> workers s ! w = Fetching p \<and>
          find_match tgt d = Inr None \<and> nxt d = Url (Inr np) \<and> p = MAX_PAGE s \<longrightarrow>
            MAX_PAGE s' = MAX_PAGE s + 1 \<and>
            es = (if found_event s then [IsSet w True, TaskDone w (Some p)]
                  else [IsSet w False, PutPage w np, TaskDone w (Some p)]) \<and>
            queue s' = (if found_event s then queue s else queue s @ [Some np])) \<and>
         (PutPage w q \<in> set es \<longrightarrow> \<not> found_event s \<and> \<not> seen w tr)"
proof -
  have b: "balanced s"
    using assms(1) by (rule reach_balanced)
  have i: "seen_inv tr s"
    using assms(1) by (rule reach_seen_inv)
  from b assms(2) show ?thesis
    by (cases rule: step_cases) (use i in \<open>auto simp: seen_inv_def\<close>)
qed

theorem frontier_put_is_guarded_witness:
  "exec ''jedi interceptor'' (take 10 search_run) (find_starship_rating_start 2 3) =
     Some (trace_10, state_10) \<and>
   step ''jedi interceptor'' (FetchReturns 2 (Some page_2)) state_10 =
     Some ([IsSet 2 False, PutPage 2 3, TaskDone 2 (Some 2)],
           state_10\<lparr>queue := [Some 3], MAX_PAGE := 3, workers := [Waiting, Waiting, Head]\<rparr>) \<and>
   workers state_10 ! 2 = Fetching 2 \<and>
   find_match ''jedi interceptor'' page_2 = Inr None \<and> nxt page_2 = Url (Inr 3) \<and>
   MAX_PAGE state_10 = 2 \<and>
   PutPage 2 3 \<in> set [IsSet 2 False, PutPage 2 3, TaskDone 2 (Some 2)] \<and>
   MAX_PAGE (state_10\<lparr>queue := [Some 3], MAX_PAGE := 3, workers := [Waiting, Waiting, Head]\<rparr>) =
     MAX_PAGE state_10 + 1 \<and>
   \<not> found_event state_10 \<and> \<not> seen 2 trace_10"
proof -
  have r: "exec ''jedi interceptor'' (take 10 search_run) (find_starship_rating_start 2 3) =
      Some (trace_10, state_10)"
    using after_10 by (simp add: after_def MAX_PAGE_at_import_def)
  have st: "step ''jedi interceptor'' (FetchReturns 2 (Some page_2)) state_10 =
     Some ([IsSet 2 False, PutPage 2 3, TaskDone 2 (Some 2)],
           state_10\<lparr>queue := [Some 3], MAX_PAGE := 3, workers := [Waiting, Waiting, Head]\<rparr>)"
    unfolding state_10_def by code_simp
  have h: "workers state_10 ! 2 = Fetching 2" "nxt page_2 = Url (Inr 3)"
    "MAX_PAGE state_10 = 2"
    by (simp_all add: state_10_def page_2_def)
  have m: "find_match ''jedi interceptor'' page_2 = Inr None"
    by code_simp
  show ?thesis
    using frontier_put_is_guarded[OF r st, of 2 page_2 2 3 3] r st h m by simp
qed

text \<open>
  C10. A worker whose \<open>queue.get()\<close> times out ends without a call of \<open>task_done\<close> and
  leaves the count of unfinished items as it is. At every moment the successful calls of
  \<open>task_done\<close> are no more than the items got from the queue, and no worker has ended
  by the \<open>ValueError\<close> of \<open>task_done\<close>, so no call of it has failed.
\<close>

theorem task_done_never_fails:
  assumes "exec tgt as (find_starship_rating_start g n) = Some (tr, s)"
  shows "length (filter is_done tr) \<le> length (filter is_get tr) \<and>
         Raised \<notin> set (workers s) \<and>
         (step tgt (GetTimesOut w) s = Some (es, s') \<longrightarrow>
            es = [TimedOut w] \<and> unfinished_tasks s' = unfinished_tasks s \<and>
            workers s' = (workers s)[w := Exited])"
proof -
  have "balanced s"
    using assms by (rule reach_balanced)
  moreover have "tallied tr s"
    using assms by (rule reach_tallied)
  ultimately show ?thesis
    by (auto simp: balanced_def tallied_def get_times_out_def set_pc_def split: if_splits)
qed

theorem task_done_never_fails_witness:
  "exec ''jedi interceptor'' (take 8 search_run) (find_starship_rating_start 2 3) =
     Some (trace_8, state_8) \<and>
   step ''jedi interceptor'' (GetTimesOut 0) state_8 =
     Some ([TimedOut 0], state_8\<lparr>workers := [Exited, Fetching 1, Fetching 2]\<rparr>) \<and>
   unfinished_tasks (state_8\<lparr>workers := [Exited, Fetching 1, Fetching 2]\<rparr>) =
     unfinished_tasks state_8 \<and>
   length (filter is_done trace_8) \<le> length (filter is_get trace_8) \<and>
   Raised \<notin> set (workers state_8)"
proof -
  have r: "exec ''jedi interceptor'' (take 8 search_run) (find_starship_rating_start 2 3) =
      Some (trace_8, state_8)"
    using after_8 by (simp add: after_def MAX_PAGE_at_import_def)
  have st: "step ''jedi interceptor'' (GetTimesOut 0) state_8 =
     Some ([TimedOut 0], state_8\<lparr>workers := [Exited, Fetching 1, Fetching 2]\<rparr>)"
    unfolding state_8_def by code_simp
  show ?thesis
    using task_done_never_fails[OF r, of 0 "[TimedOut 0]"
        "state_8\<lparr>workers := [Exited, Fetching 1, Fetching 2]\<rparr>"] r st
    by simp
qed

end
